theory Spec2Isabelle
  imports Main "HOL-Library.Sublist"
begin

section \<open>JavaScript strings\<close>

text \<open>
  A JavaScript string is modelled as a \<^typ>\<open>string\<close>, one \<^typ>\<open>char\<close> per code unit
  (code units up to 255). \<open>s.startsWith(t)\<close> is \<^const>\<open>prefix\<close> \<open>t s\<close>.
\<close>

text \<open>\<open>s.includes(t)\<close>: \<open>t\<close> occurs in \<open>s\<close> at some position.\<close>

fun includesStr :: "string \<Rightarrow> string \<Rightarrow> bool" where
  "includesStr [] t = (t = [])"
| "includesStr (c # s) t = (prefix t (c # s) \<or> includesStr s t)"

text \<open>\<open>s.indexOf(t)\<close>: the first position where \<open>t\<close> occurs, \<open>None\<close> for JavaScript's -1.\<close>

fun indexOf :: "string \<Rightarrow> string \<Rightarrow> nat option" where
  "indexOf [] t = (if t = [] then Some 0 else None)"
| "indexOf (c # s) t =
     (if prefix t (c # s) then Some 0 else map_option Suc (indexOf s t))"

text \<open>
  \<open>s.split(sep)\<close> for a string separator: the scan runs left to right and cuts at the
  first position where the separator matches; an empty separator cuts between all
  code units.
\<close>

function split :: "string \<Rightarrow> string \<Rightarrow> string list" where
  "split sep [] = (if sep = [] then [] else [[]])"
| "split sep (c # s) =
     (if sep = [] then map (\<lambda>x. [x]) (c # s)
      else if prefix sep (c # s) then [] # split sep (drop (length sep) (c # s))
      else (case split sep s of [] \<Rightarrow> [[c]] | r # rs \<Rightarrow> (c # r) # rs))"
  by pat_completeness auto
termination
  by (relation "measure (\<lambda>(sep, s). length s)") (auto simp: neq_Nil_conv)

text \<open>\<open>xs.join(sep)\<close> on an array of strings.\<close>

fun join :: "string \<Rightarrow> string list \<Rightarrow> string" where
  "join sep [] = []"
| "join sep [x] = x"
| "join sep (x # y # ys) = x @ sep @ join sep (y # ys)"

text \<open>
  White space and line terminators as \<open>String.prototype.trim\<close> sees them, among the
  code units below 256: tab, line feed, vertical tab, form feed, carriage return,
  space and the no-break space.
\<close>

definition is_space :: "char \<Rightarrow> bool" where
  "is_space c = (c \<in> set [CHR 0x09, CHR 0x0A, CHR 0x0B, CHR 0x0C, CHR 0x0D, CHR 0x20, CHR 0xA0])"

definition trim :: "string \<Rightarrow> string" where
  "trim s = rev (dropWhile is_space (rev (dropWhile is_space s)))"

text \<open>\<open>n.toString()\<close> for a non-negative integer: its decimal digits.\<close>

definition digit_char :: "nat \<Rightarrow> char" where
  "digit_char d = ''0123456789'' ! d"

function nat_toString :: "nat \<Rightarrow> string" where
  "nat_toString n =
     (if n < 10 then [digit_char n] else nat_toString (n div 10) @ [digit_char (n mod 10)])"
  by pat_completeness auto
termination
  by (relation "measure (\<lambda>n. n)") auto

declare nat_toString.simps [simp del]

definition int_toString :: "int \<Rightarrow> string" where
  "int_toString i = (if i < 0 then CHR ''-'' # nat_toString (nat (- i)) else nat_toString (nat i))"

text \<open>\<open>s.padStart(n)\<close>: spaces in front up to length \<open>n\<close>.\<close>

definition padStart :: "nat \<Rightarrow> string \<Rightarrow> string" where
  "padStart n s = replicate (n - length s) CHR '' '' @ s"

section \<open>JavaScript values\<close>

text \<open>
  The values that JSON texts, tool arguments and tool results range over. A number is
  the exact decimal \<open>m * 10 ^ e\<close> (\<open>JNum m e\<close>); the rounding of IEEE doubles is not
  modelled. An object is the list of its own properties in insertion order.
\<close>

datatype jsval =
    JUndefined
  | JNull
  | JBool bool
  | JNum int int
  | JStr string
  | JArr "jsval list"
  | JObj "(string \<times> jsval) list"

text \<open>
  An exception with its message: the \<open>SyntaxError\<close> of \<open>JSON.parse\<close>, or any other
  exception.
\<close>

datatype exn = SyntaxError string | Thrown string

fun message_of :: "exn \<Rightarrow> string" where
  "message_of (SyntaxError m) = m"
| "message_of (Thrown m) = m"

section \<open>The world of the tools\<close>

text \<open>
  The file system maps an absolute path to a regular file with its text or to a
  directory. \<open>spawned\<close> logs every command handed to \<open>execSync\<close>, oldest first.
\<close>

datatype node = File string | Directory

record world =
  files :: "string \<rightharpoonup> node"
  spawned :: "string list"

text \<open>
  What the platform contributes and the repository does not define:
  \<open>resolve\<close> is \<open>path.resolve\<close>; \<open>JSON_parse\<close> is \<open>JSON.parse\<close>, \<open>Inl\<close> with the message
  when it throws its \<open>SyntaxError\<close>; \<open>JSON_stringify\<close> is \<open>JSON.stringify\<close>, which returns a string or
  \<open>undefined\<close>; \<open>execSync\<close> runs a command with a timeout on a file
  system and either throws (\<open>Inl\<close>, the message) or returns the captured standard output,
  with the file system as the command left it; \<open>foreign\<close> is the behaviour of a registry
  member on arguments, named by the member, for members and argument shapes
  that are not modelled here.
\<close>

record platform =
  resolve :: "string \<Rightarrow> string"
  JSON_parse :: "string \<Rightarrow> string + jsval"
  JSON_stringify :: "jsval \<Rightarrow> jsval"
  execSync :: "string \<Rightarrow> int \<Rightarrow> (string \<rightharpoonup> node) \<Rightarrow> (string + string) \<times> (string \<rightharpoonup> node)"
  foreign :: "string \<Rightarrow> jsval \<Rightarrow> world \<Rightarrow> (exn + jsval) \<times> world"

section \<open>execute\_command\<close>

definition forbiddenCommands :: "string list" where
  "forbiddenCommands =
     [''rm -rf'', ''sudo'', ''chmod 777'', ''mkfs'', ''dd if=/dev/zero'', '':(){ :|:& };:'']"

definition error_result :: "string \<Rightarrow> jsval" where
  "error_result m = JObj [(''error'', JStr m)]"

text \<open>
  The loop over the deny-list returns at the first entry the command contains; only
  when no entry matches is the command run.
\<close>

definition execute_command :: "platform \<Rightarrow> string \<Rightarrow> int \<Rightarrow> world \<Rightarrow> jsval \<times> world" where
  "execute_command P command timeout w =
     (if list_ex (includesStr command) forbiddenCommands
      then (error_result (''Command not allowed for security reasons: '' @ command), w)
      else (case execSync P command timeout (files w) of
              (Inr result, fs') \<Rightarrow>
                (JObj [(''output'', JStr (trim result)), (''command'', JStr command)],
                 w\<lparr>files := fs', spawned := spawned w @ [command]\<rparr>)
            | (Inl msg, fs') \<Rightarrow>
                (JObj [(''error'', JStr (''Command execution failed: '' @ msg)),
                       (''command'', JStr command)],
                 w\<lparr>files := fs', spawned := spawned w @ [command]\<rparr>)))"

section \<open>edit\_file\<close>

text \<open>
  \<open>GetSubstitution\<close> of the language standard, for a pattern that is a string (no
  capture groups): in the replacement text \<open>$$\<close> stands for a dollar sign, \<open>$&\<close> for
  the matched text, a dollar sign and a backquote for the text before the match and a
  dollar sign and an apostrophe for the text after it; every other code unit, a dollar
  sign before anything else included, stands for itself.
\<close>

fun GetSubstitution :: "string \<Rightarrow> string \<Rightarrow> string \<Rightarrow> string \<Rightarrow> string" where
  "GetSubstitution matched front back [] = []"
| "GetSubstitution matched front back [c] = [c]"
| "GetSubstitution matched front back (c # d # t) =
     (if c = CHR ''$'' \<and> d = CHR ''$'' then CHR ''$'' # GetSubstitution matched front back t
      else if c = CHR ''$'' \<and> d = CHR ''&'' then matched @ GetSubstitution matched front back t
      else if c = CHR ''$'' \<and> d = CHR 0x60 then front @ GetSubstitution matched front back t
      else if c = CHR ''$'' \<and> d = CHR 0x27 then back @ GetSubstitution matched front back t
      else c # GetSubstitution matched front back (d # t))"

text \<open>
  \<open>s.replace(pattern, replacement)\<close> with two strings: the first occurrence of the
  pattern is replaced by the substitution of the replacement text.
\<close>

definition replace :: "string \<Rightarrow> string \<Rightarrow> string \<Rightarrow> string" where
  "replace s pattern replacement =
     (case indexOf s pattern of
        None \<Rightarrow> s
      | Some i \<Rightarrow>
          take i s
          @ GetSubstitution pattern (take i s) (drop (i + length pattern) s) replacement
          @ drop (i + length pattern) s)"

text \<open>
  Reading a directory makes \<open>readFile\<close> throw, and the \<open>catch\<close> of the tool turns that
  into an error result.
\<close>

definition EISDIR :: string where
  "EISDIR = ''EISDIR: illegal operation on a directory, read''"

definition edit_file :: "platform \<Rightarrow> string \<Rightarrow> string \<Rightarrow> string \<Rightarrow> world \<Rightarrow> jsval \<times> world" where
  "edit_file P file_path old_string new_string w =
     (let absolutePath = resolve P file_path in
      case files w absolutePath of
        None \<Rightarrow> (error_result (''File not found: '' @ file_path), w)
      | Some Directory \<Rightarrow> (error_result (''Error editing file: '' @ EISDIR), w)
      | Some (File content) \<Rightarrow>
          if \<not> includesStr content old_string
          then (error_result (''Text not found in file: '' @ take 50 old_string
                  @ (if length old_string > 50 then ''...'' else [])), w)
          else
            let newContent = replace content old_string new_string in
            (JObj [(''success'', JBool True),
                   (''message'', JStr (''File edited successfully: '' @ file_path)),
                   (''replacements'', JNum 1 0)],
             w\<lparr>files := (files w)(absolutePath \<mapsto> File newContent)\<rparr>))"

section \<open>read\_file\<close>

text \<open>\<open>xs.slice(start, end)\<close> with integer bounds; a negative bound counts from the end.\<close>

definition slice :: "'a list \<Rightarrow> int \<Rightarrow> int \<Rightarrow> 'a list" where
  "slice xs start end' =
     (let len = int (length xs);
          k = (if start < 0 then max (len + start) 0 else min start len);
          final = (if end' < 0 then max (len + end') 0 else min end' len)
      in take (nat (final - k)) (drop (nat k) xs))"

text \<open>The callback of \<open>selectedLines.map\<close>: the line with its number, cat -n style.\<close>

definition number_line :: "int \<Rightarrow> nat \<Rightarrow> string \<Rightarrow> string" where
  "number_line offset i line = padStart 6 (int_toString (int i + offset + 1)) @ ''  '' @ line"

definition read_file :: "platform \<Rightarrow> string \<Rightarrow> int \<Rightarrow> int \<Rightarrow> world \<Rightarrow> jsval \<times> world" where
  "read_file P file_path offset limit w =
     (let absolutePath = resolve P file_path in
      case files w absolutePath of
        None \<Rightarrow> (error_result (''File not found: '' @ file_path), w)
      | Some Directory \<Rightarrow> (error_result (''Error reading file: '' @ EISDIR), w)
      | Some (File content) \<Rightarrow>
          let lines = split ''\<newline>'' content;
              selectedLines = slice lines offset (offset + limit);
              numberedLines =
                join ''\<newline>''
                  (map (\<lambda>(i, line). number_line offset i line)
                     (zip [0..<length selectedLines] selectedLines))
          in (JObj [(''content'', JStr numberedLines),
                    (''total_lines'', JNum (int (length lines)) 0),
                    (''displayed_lines'', JNum (int (length selectedLines)) 0)],
              w))"

section \<open>A reader of JSON texts\<close>

text \<open>
  The grammar of \<open>JSON.parse\<close>, to evaluate the program on concrete texts; the
  functions of the program take the parser from the platform. An escape with four
  hexadecimal digits is read when it names a code unit below 256, the range of
  \<^typ>\<open>char\<close>.
\<close>

definition json_ws :: "char \<Rightarrow> bool" where
  "json_ws c = (c \<in> set [CHR 0x20, CHR 0x09, CHR 0x0A, CHR 0x0D])"

definition skip_ws :: "string \<Rightarrow> string" where
  "skip_ws s = dropWhile json_ws s"

definition is_digit :: "char \<Rightarrow> bool" where
  "is_digit c = (48 \<le> (of_char c :: nat) \<and> (of_char c :: nat) \<le> 57)"

definition digit_val :: "char \<Rightarrow> nat" where
  "digit_val c = of_char c - 48"

definition digits_val :: "string \<Rightarrow> nat" where
  "digits_val ds = foldl (\<lambda>n c. 10 * n + digit_val c) 0 ds"

definition hex_val :: "char \<Rightarrow> nat option" where
  "hex_val c =
     (let n = (of_char c :: nat) in
      if 48 \<le> n \<and> n \<le> 57 then Some (n - 48)
      else if 65 \<le> n \<and> n \<le> 70 then Some (n - 55)
      else if 97 \<le> n \<and> n \<le> 102 then Some (n - 87)
      else None)"

fun hex4 :: "string \<Rightarrow> nat option" where
  "hex4 [a, b, c, d] =
     (case (hex_val a, hex_val b, hex_val c, hex_val d) of
        (Some x, Some y, Some z, Some u) \<Rightarrow> Some (((x * 16 + y) * 16 + z) * 16 + u)
      | _ \<Rightarrow> None)"
| "hex4 _ = None"

definition unescape :: "char \<Rightarrow> char option" where
  "unescape e =
     (if e = CHR 0x22 then Some (CHR 0x22)
      else if e = CHR 0x5C then Some (CHR 0x5C)
      else if e = CHR ''/'' then Some (CHR ''/'')
      else if e = CHR ''b'' then Some (CHR 0x08)
      else if e = CHR ''f'' then Some (CHR 0x0C)
      else if e = CHR ''n'' then Some (CHR 0x0A)
      else if e = CHR ''r'' then Some (CHR 0x0D)
      else if e = CHR ''t'' then Some (CHR 0x09)
      else None)"

text \<open>The text of a string after its opening quotation mark, and what follows it.\<close>

fun string_body :: "string \<Rightarrow> (string \<times> string) option" where
  "string_body [] = None"
| "string_body (c # s) =
     (if c = CHR 0x22 then Some ([], s)
      else if c = CHR 0x5C then
        (case s of
           [] \<Rightarrow> None
         | e # s' \<Rightarrow>
             if e = CHR ''u'' then
               (case hex4 (take 4 s') of
                  None \<Rightarrow> None
                | Some n \<Rightarrow>
                    if n < 256
                    then map_option (\<lambda>(r, rest). (char_of n # r, rest)) (string_body (drop 4 s'))
                    else None)
             else
               (case unescape e of
                  None \<Rightarrow> None
                | Some x \<Rightarrow> map_option (\<lambda>(r, rest). (x # r, rest)) (string_body s')))
      else if (of_char c :: nat) < 32 then None
      else map_option (\<lambda>(r, rest). (c # r, rest)) (string_body s))"

text \<open>A number: sign, integer part, fraction, exponent.\<close>

definition number :: "string \<Rightarrow> (jsval \<times> string) option" where
  "number s =
     (let neg = (s \<noteq> [] \<and> hd s = CHR ''-'');
          s1 = (if neg then tl s else s);
          ip = takeWhile is_digit s1;
          s2 = dropWhile is_digit s1;
          has_frac = (s2 \<noteq> [] \<and> hd s2 = CHR ''.'');
          fp = (if has_frac then takeWhile is_digit (tl s2) else []);
          s3 = (if has_frac then dropWhile is_digit (tl s2) else s2);
          has_exp = (s3 \<noteq> [] \<and> (hd s3 = CHR ''e'' \<or> hd s3 = CHR ''E''));
          s4 = (if has_exp then tl s3 else s3);
          eneg = (has_exp \<and> s4 \<noteq> [] \<and> hd s4 = CHR ''-'');
          s5 = (if has_exp \<and> s4 \<noteq> [] \<and> (hd s4 = CHR ''-'' \<or> hd s4 = CHR ''+'') then tl s4 else s4);
          ep = (if has_exp then takeWhile is_digit s5 else []);
          s6 = (if has_exp then dropWhile is_digit s5 else s3);
          m = int (digits_val (ip @ fp));
          e = int (digits_val ep)
      in if ip = [] \<or> (length ip > 1 \<and> hd ip = CHR ''0'') \<or> (has_frac \<and> fp = [])
            \<or> (has_exp \<and> ep = [])
         then None
         else Some (JNum (if neg then - m else m) ((if eneg then - e else e) - int (length fp)), s6))"

text \<open>
  Setting a property: a key that the object has keeps its place and takes the new
  value, a new key goes last.
\<close>

fun set_prop :: "string \<Rightarrow> jsval \<Rightarrow> (string \<times> jsval) list \<Rightarrow> (string \<times> jsval) list" where
  "set_prop k v [] = [(k, v)]"
| "set_prop k v ((k', v') # ps) = (if k = k' then (k, v) # ps else (k', v') # set_prop k v ps)"

fun value_p :: "nat \<Rightarrow> string \<Rightarrow> (jsval \<times> string) option"
  and elements_p :: "nat \<Rightarrow> string \<Rightarrow> jsval list \<Rightarrow> (jsval \<times> string) option"
  and members_p :: "nat \<Rightarrow> string \<Rightarrow> (string \<times> jsval) list \<Rightarrow> (jsval \<times> string) option" where
  "value_p 0 s = None"
| "value_p (Suc n) s =
     (case skip_ws s of
        [] \<Rightarrow> None
      | c # r \<Rightarrow>
          if c = CHR ''{'' then
            (case skip_ws r of
               [] \<Rightarrow> None
             | d # r' \<Rightarrow> if d = CHR ''}'' then Some (JObj [], r') else members_p n (d # r') [])
          else if c = CHR ''['' then
            (case skip_ws r of
               [] \<Rightarrow> None
             | d # r' \<Rightarrow> if d = CHR '']'' then Some (JArr [], r') else elements_p n (d # r') [])
          else if c = CHR 0x22 then map_option (\<lambda>(x, rest). (JStr x, rest)) (string_body r)
          else if prefix ''true'' (c # r) then Some (JBool True, drop 4 (c # r))
          else if prefix ''false'' (c # r) then Some (JBool False, drop 5 (c # r))
          else if prefix ''null'' (c # r) then Some (JNull, drop 4 (c # r))
          else number (c # r))"
| "elements_p 0 s acc = None"
| "elements_p (Suc n) s acc =
     (case value_p n s of
        None \<Rightarrow> None
      | Some (v, r) \<Rightarrow>
          (case skip_ws r of
             [] \<Rightarrow> None
           | c # r' \<Rightarrow>
               if c = CHR '','' then elements_p n r' (acc @ [v])
               else if c = CHR '']'' then Some (JArr (acc @ [v]), r')
               else None))"
| "members_p 0 s acc = None"
| "members_p (Suc n) s acc =
     (case skip_ws s of
        [] \<Rightarrow> None
      | q # r \<Rightarrow>
          if q \<noteq> CHR 0x22 then None
          else
            (case string_body r of
               None \<Rightarrow> None
             | Some (k, r1) \<Rightarrow>
                 (case skip_ws r1 of
                    [] \<Rightarrow> None
                  | c # r2 \<Rightarrow>
                      if c \<noteq> CHR '':'' then None
                      else
                        (case value_p n r2 of
                           None \<Rightarrow> None
                         | Some (v, r3) \<Rightarrow>
                             (case skip_ws r3 of
                                [] \<Rightarrow> None
                              | d # r4 \<Rightarrow>
                                  if d = CHR '','' then members_p n r4 (set_prop k v acc)
                                  else if d = CHR ''}'' then Some (JObj (set_prop k v acc), r4)
                                  else None)))))"

text \<open>
  The whole text is one value between white space. The fuel counts the calls of the
  three functions above: every call but that of \<open>value_p\<close> by \<open>elements_p\<close> comes
  after a character has been consumed, so the fuel is twice the length of the text
  and two.
\<close>

definition read_json :: "string \<Rightarrow> string + jsval" where
  "read_json s =
     (case value_p (2 * length s + 2) s of
        None \<Rightarrow> Inl ''Unexpected token in JSON''
      | Some (v, rest) \<Rightarrow> if skip_ws rest = [] then Inr v else Inl ''Unexpected token in JSON'')"

section \<open>Property access, truthiness, conversion to string\<close>

text \<open>
  \<open>v.k\<close> for the property names the program uses, none of which is a member of a
  prototype: reading a property of \<open>undefined\<close> or \<open>null\<close> throws a TypeError, an
  object yields its own property or \<open>undefined\<close>, an array or a string knows its
  \<open>length\<close>, and everything else yields \<open>undefined\<close>.
\<close>

definition own :: "(string \<times> jsval) list \<Rightarrow> string \<Rightarrow> jsval" where
  "own ps k = (case map_of ps k of None \<Rightarrow> JUndefined | Some v \<Rightarrow> v)"

fun getProp :: "jsval \<Rightarrow> string \<Rightarrow> exn + jsval" where
  "getProp JUndefined k = Inl (Thrown (''Cannot read properties of undefined (reading '' @ [CHR 0x27] @ k @ [CHR 0x27] @ '')''))"
| "getProp JNull k = Inl (Thrown (''Cannot read properties of null (reading '' @ [CHR 0x27] @ k @ [CHR 0x27] @ '')''))"
| "getProp (JObj ps) k = Inr (own ps k)"
| "getProp (JArr xs) k = Inr (if k = ''length'' then JNum (int (length xs)) 0 else JUndefined)"
| "getProp (JStr s) k = Inr (if k = ''length'' then JNum (int (length s)) 0 else JUndefined)"
| "getProp (JBool b) k = Inr JUndefined"
| "getProp (JNum m e) k = Inr JUndefined"

text \<open>\<open>v[i]\<close> for an index \<open>i\<close>.\<close>

fun getIndex :: "jsval \<Rightarrow> nat \<Rightarrow> exn + jsval" where
  "getIndex (JObj ps) i = Inr (own ps (nat_toString i))"
| "getIndex (JArr xs) i = Inr (if i < length xs then xs ! i else JUndefined)"
| "getIndex (JStr s) i = Inr (if i < length s then JStr [s ! i] else JUndefined)"
| "getIndex v i = getProp v (nat_toString i)"

fun truthy :: "jsval \<Rightarrow> bool" where
  "truthy JUndefined = False"
| "truthy JNull = False"
| "truthy (JBool b) = b"
| "truthy (JNum m e) = (m \<noteq> 0)"
| "truthy (JStr s) = (s \<noteq> [])"
| "truthy (JArr xs) = True"
| "truthy (JObj ps) = True"

text \<open>The decimal numeral of \<open>m * 10 ^ e\<close>, without trailing zeros in the fraction.\<close>

definition Number_toString :: "int \<Rightarrow> int \<Rightarrow> string" where
  "Number_toString m e =
     (if 0 \<le> e then int_toString (m * 10 ^ nat e)
      else
        let q = (10::nat) ^ nat (- e); a = nat \<bar>m\<bar>;
            frac = nat_toString (a mod q);
            padded = replicate (nat (- e) - length frac) CHR ''0'' @ frac;
            kept = rev (dropWhile (\<lambda>c. c = CHR ''0'') (rev padded))
        in (if m < 0 \<and> a \<noteq> 0 then ''-'' else [])
           @ nat_toString (a div q) @ (if kept = [] then [] else CHR ''.'' # kept))"

text \<open>
  \<open>String(v)\<close>, as a template literal and a property key convert a value; \<open>Inl\<close> is the
  TypeError that the conversion throws. An object is converted by the first of its
  methods \<open>toString\<close> and \<open>valueOf\<close> that is a function and returns a primitive value.
  The values here are read from JSON texts, so no property of theirs is a function: an
  object with a property \<open>toString\<close> of its own is left with \<open>Object.prototype.valueOf\<close>,
  which returns the object itself, and the conversion throws; every other object is
  converted by \<open>Object.prototype.toString\<close>. An array joins the conversions of its
  elements, \<open>undefined\<close> and \<open>null\<close> giving the empty string.
\<close>

fun ToString :: "jsval \<Rightarrow> exn + string"
  and ToString_elements :: "jsval list \<Rightarrow> exn + string list" where
  "ToString JUndefined = Inr ''undefined''"
| "ToString JNull = Inr ''null''"
| "ToString (JBool b) = Inr (if b then ''true'' else ''false'')"
| "ToString (JNum m e) = Inr (Number_toString m e)"
| "ToString (JStr s) = Inr s"
| "ToString (JArr xs) =
     (case ToString_elements xs of Inl e \<Rightarrow> Inl e | Inr ts \<Rightarrow> Inr (join '','' ts))"
| "ToString (JObj ps) =
     (if map_of ps ''toString'' \<noteq> None
      then Inl (Thrown ''Cannot convert object to primitive value'')
      else Inr ''[object Object]'')"
| "ToString_elements [] = Inr []"
| "ToString_elements (x # xs) =
     (case (if x = JUndefined \<or> x = JNull then Inr [] else ToString x) of
        Inl e \<Rightarrow> Inl e
      | Inr t \<Rightarrow>
          (case ToString_elements xs of Inl e \<Rightarrow> Inl e | Inr ts \<Rightarrow> Inr (t # ts)))"

section \<open>A writer of JSON texts\<close>

definition hex_digit :: "nat \<Rightarrow> char" where
  "hex_digit d = (if d < 10 then char_of (48 + d) else char_of (87 + d))"

definition quote_char :: "char \<Rightarrow> string" where
  "quote_char c =
     (if c = CHR 0x22 then [CHR 0x5C, CHR 0x22]
      else if c = CHR 0x5C then [CHR 0x5C, CHR 0x5C]
      else if c = CHR 0x08 then [CHR 0x5C, CHR ''b'']
      else if c = CHR 0x0C then [CHR 0x5C, CHR ''f'']
      else if c = CHR 0x0A then [CHR 0x5C, CHR ''n'']
      else if c = CHR 0x0D then [CHR 0x5C, CHR ''r'']
      else if c = CHR 0x09 then [CHR 0x5C, CHR ''t'']
      else if (of_char c :: nat) < 32
        then [CHR 0x5C, CHR ''u'', CHR ''0'', CHR ''0'',
              hex_digit ((of_char c :: nat) div 16), hex_digit ((of_char c :: nat) mod 16)]
      else [c])"

definition quote :: "string \<Rightarrow> string" where
  "quote s = [CHR 0x22] @ concat (map quote_char s) @ [CHR 0x22]"

text \<open>
  \<open>None\<close> is \<open>undefined\<close>: a property with such a value is left out of an object, an
  array element with such a value is written \<open>null\<close>.
\<close>

fun write_value :: "jsval \<Rightarrow> string option"
  and write_elements :: "jsval list \<Rightarrow> string list"
  and write_members :: "(string \<times> jsval) list \<Rightarrow> string list" where
  "write_value JUndefined = None"
| "write_value JNull = Some ''null''"
| "write_value (JBool b) = Some (if b then ''true'' else ''false'')"
| "write_value (JNum m e) = Some (Number_toString m e)"
| "write_value (JStr s) = Some (quote s)"
| "write_value (JArr xs) = Some (''['' @ join '','' (write_elements xs) @ '']'')"
| "write_value (JObj ps) = Some (''{'' @ join '','' (write_members ps) @ ''}'')"
| "write_elements [] = []"
| "write_elements (x # xs) =
     (case write_value x of None \<Rightarrow> ''null'' | Some t \<Rightarrow> t) # write_elements xs"
| "write_members [] = []"
| "write_members ((k, v) # ps) =
     (case write_value v of
        None \<Rightarrow> write_members ps
      | Some t \<Rightarrow> (quote k @ '':'' @ t) # write_members ps)"

definition write_json :: "jsval \<Rightarrow> jsval" where
  "write_json v = (case write_value v of None \<Rightarrow> JUndefined | Some t \<Rightarrow> JStr t)"

section \<open>The tool registry and processToolCall\<close>

text \<open>The integer a number stands for, if it is one.\<close>

definition as_integer :: "jsval \<Rightarrow> int option" where
  "as_integer v =
     (case v of
        JNum m e \<Rightarrow>
          if 0 \<le> e then Some (m * 10 ^ nat e)
          else if m mod 10 ^ nat (- e) = 0 then Some (m div 10 ^ nat (- e))
          else None
      | _ \<Rightarrow> None)"

text \<open>A destructured parameter with a default: the default stands in for \<open>undefined\<close>.\<close>

definition integer_or :: "int \<Rightarrow> jsval \<Rightarrow> int option" where
  "integer_or d v = (if v = JUndefined then Some d else as_integer v)"

text \<open>
  The registry members as they receive the parsed arguments. With an argument object
  whose properties have the types the tool's definition declares, the member is the
  function above; on every other argument the member's behaviour is the platform's.
\<close>

definition read_file_member :: "platform \<Rightarrow> jsval \<Rightarrow> world \<Rightarrow> (exn + jsval) \<times> world" where
  "read_file_member P args w =
     (case args of
        JObj ps \<Rightarrow>
          (case (own ps ''file_path'', integer_or 0 (own ps ''offset''),
                 integer_or 2000 (own ps ''limit'')) of
             (JStr file_path, Some offset, Some limit) \<Rightarrow>
               (case read_file P file_path offset limit w of (r, w') \<Rightarrow> (Inr r, w'))
           | _ \<Rightarrow> foreign P ''read_file'' args w)
      | _ \<Rightarrow> foreign P ''read_file'' args w)"

definition edit_file_member :: "platform \<Rightarrow> jsval \<Rightarrow> world \<Rightarrow> (exn + jsval) \<times> world" where
  "edit_file_member P args w =
     (case args of
        JObj ps \<Rightarrow>
          (case (own ps ''file_path'', own ps ''old_string'', own ps ''new_string'') of
             (JStr file_path, JStr old_string, JStr new_string) \<Rightarrow>
               (case edit_file P file_path old_string new_string w of (r, w') \<Rightarrow> (Inr r, w'))
           | _ \<Rightarrow> foreign P ''edit_file'' args w)
      | _ \<Rightarrow> foreign P ''edit_file'' args w)"

definition execute_command_member :: "platform \<Rightarrow> jsval \<Rightarrow> world \<Rightarrow> (exn + jsval) \<times> world" where
  "execute_command_member P args w =
     (case args of
        JObj ps \<Rightarrow>
          (case (own ps ''command'', integer_or 60000 (own ps ''timeout'')) of
             (JStr command, Some timeout) \<Rightarrow>
               (case execute_command P command timeout w of (r, w') \<Rightarrow> (Inr r, w'))
           | _ \<Rightarrow> foreign P ''execute_command'' args w)
      | _ \<Rightarrow> foreign P ''execute_command'' args w)"

text \<open>
  The members that \<open>toolImplementations\<close>, an object literal, inherits from
  \<open>Object.prototype\<close>: the lookup \<open>toolImplementations[name]\<close> finds them too.
\<close>

definition Object_prototype :: "string list" where
  "Object_prototype =
     [''constructor'', ''__defineGetter__'', ''__defineSetter__'', ''hasOwnProperty'',
      ''__lookupGetter__'', ''__lookupSetter__'', ''isPrototypeOf'', ''propertyIsEnumerable'',
      ''toString'', ''valueOf'', ''__proto__'', ''toLocaleString'']"

text \<open>
  \<open>toolImplementations[name]\<close>: \<open>None\<close> is \<open>undefined\<close>. \<open>write_file\<close>,
  \<open>list_directory\<close> and \<open>search_code\<close> are members whose behaviour is left to the
  platform here.
\<close>

definition toolImplementations ::
  "platform \<Rightarrow> string \<Rightarrow> (jsval \<Rightarrow> world \<Rightarrow> (exn + jsval) \<times> world) option" where
  "toolImplementations P name =
     (if name = ''read_file'' then Some (read_file_member P)
      else if name = ''write_file'' then Some (foreign P ''write_file'')
      else if name = ''edit_file'' then Some (edit_file_member P)
      else if name = ''list_directory'' then Some (foreign P ''list_directory'')
      else if name = ''search_code'' then Some (foreign P ''search_code'')
      else if name = ''execute_command'' then Some (execute_command_member P)
      else if name \<in> set Object_prototype then Some (foreign P name)
      else None)"

text \<open>
  \<open>processToolCall({function: {name, arguments}})\<close>. \<open>Inl\<close> is the exception the
  returned promise is rejected with. The arguments are parsed, and \<open>name\<close> is converted
  to the property key of the lookup \<open>toolImplementations[name]\<close>, before the \<open>try\<close>.
\<close>

definition processToolCall :: "platform \<Rightarrow> jsval \<Rightarrow> jsval \<Rightarrow> world \<Rightarrow> (exn + jsval) \<times> world" where
  "processToolCall P name args w =
     (case (case args of JStr s \<Rightarrow> JSON_parse P s | _ \<Rightarrow> Inr args) of
        Inl m \<Rightarrow> (Inl (SyntaxError m), w)
      | Inr parsedArgs \<Rightarrow>
          (case ToString name of
             Inl e \<Rightarrow> (Inl e, w)
           | Inr key \<Rightarrow>
               (case toolImplementations P key of
                  Some member \<Rightarrow>
                    (case member parsedArgs w of
                       (Inr r, w') \<Rightarrow> (Inr r, w')
                     | (Inl error, w') \<Rightarrow>
                         (Inr (error_result (''Tool execution error: '' @ message_of error)), w'))
                | None \<Rightarrow> (Inr (error_result (''Unknown tool: '' @ key)), w))))"

section \<open>The streaming branch of callGeminiAPI\<close>

text \<open>
  \<open>response.body.getReader()\<close>, on the chunks the body delivers. \<open>fetch\<close> is
  \<open>require('node-fetch')\<close>, whose response body is a Node.js stream: it has no method
  \<open>getReader\<close>, and the call throws a TypeError.
\<close>

definition getReader :: "string list \<Rightarrow> exn + string list" where
  "getReader body = Inl (Thrown ''response.body.getReader is not a function'')"

text \<open>
  The loop that follows in the source reads the chunks of the reader; no call reaches
  it, since there is no reader.
\<close>

text \<open>
  The condition \<open>parsed.choices && parsed.choices[0].delta.content\<close>: \<open>Inl\<close> when a
  property access throws, else the value of the conjunction.
\<close>

definition delta_content :: "jsval \<Rightarrow> exn + jsval" where
  "delta_content parsed =
     (case getProp parsed ''choices'' of
        Inl e \<Rightarrow> Inl e
      | Inr choices \<Rightarrow>
          if \<not> truthy choices then Inr choices
          else
            (case getIndex choices 0 of
               Inl e \<Rightarrow> Inl e
             | Inr first \<Rightarrow>
                 (case getProp first ''delta'' of
                    Inl e \<Rightarrow> Inl e
                  | Inr delta \<Rightarrow> getProp delta ''content'')))"

text \<open>
  One element of \<open>decodedChunk.split('\n\n')\<close>, on the state of the loop: the text
  written to standard output so far, one entry per write, and \<open>fullContent\<close>. Everything
  from \<open>JSON.parse\<close> to \<open>fullContent += content\<close> is inside one \<open>try\<close> whose \<open>catch\<close> is
  empty; \<open>process.stdout.write\<close> throws on a chunk that is not a string, so a content
  that is truthy and not a string leaves the state as it is.
\<close>

definition decode_line :: "platform \<Rightarrow> string list \<times> string \<Rightarrow> string \<Rightarrow> string list \<times> string" where
  "decode_line P st line =
     (if prefix ''data:'' line then
        let data = trim (drop 5 line) in
        if data = ''[DONE]'' then st
        else
          (case JSON_parse P data of
             Inl m \<Rightarrow> st
           | Inr parsed \<Rightarrow>
               (case delta_content parsed of
                  Inr (JStr content) \<Rightarrow>
                    if content \<noteq> [] then (fst st @ [content], snd st @ content) else st
                | _ \<Rightarrow> st))
      else st)"

definition decode_chunk :: "platform \<Rightarrow> string list \<times> string \<Rightarrow> string \<Rightarrow> string list \<times> string" where
  "decode_chunk P st decodedChunk = foldl (decode_line P) st (split ''\<newline>\<newline>'' decodedChunk)"

text \<open>The \<open>while (!done)\<close> loop over the chunks that \<open>reader.read()\<close> delivers.\<close>

definition decode_stream :: "platform \<Rightarrow> string list \<Rightarrow> string list \<times> string" where
  "decode_stream P chunks = foldl (decode_chunk P) ([], []) chunks"

section \<open>callGeminiAPI\<close>

text \<open>
  A message of the conversation; a property that the object literal does not have is
  \<open>JUndefined\<close>.
\<close>

record message =
  role :: string
  content :: jsval
  function_call :: jsval
  name :: jsval

text \<open>
  The outcome of one \<open>fetch\<close>: the promise is rejected, or there is a response with its
  \<open>ok\<close> flag and its body. The body is absent or arrives in chunks; \<open>intact = False\<close>
  says that reading fails after the chunks.
\<close>

datatype reply = FetchFails string | Response bool "string list option" bool

text \<open>
  \<open>response.json()\<close>: the body, read to its end and parsed. For a rejected \<open>fetch\<close>
  it stands for the exception that \<open>await fetch(...)\<close> has thrown already.
\<close>

fun json :: "platform \<Rightarrow> reply \<Rightarrow> exn + jsval" where
  "json P (FetchFails m) = Inl (Thrown m)"
| "json P (Response ok None intact) = Inl (SyntaxError ''Unexpected end of JSON input'')"
| "json P (Response ok (Some chunks) intact) =
     (if intact
      then (case JSON_parse P (concat chunks) of Inl m \<Rightarrow> Inl (SyntaxError m) | Inr v \<Rightarrow> Inr v)
      else Inl (Thrown ''Premature close''))"

text \<open>
  \<open>data.choices && data.choices[0].message && data.choices[0].message.function_call\<close>
\<close>

definition function_call_of :: "jsval \<Rightarrow> exn + jsval" where
  "function_call_of data =
     (case getProp data ''choices'' of
        Inl e \<Rightarrow> Inl e
      | Inr choices \<Rightarrow>
          if \<not> truthy choices then Inr choices
          else
            (case getIndex choices 0 of
               Inl e \<Rightarrow> Inl e
             | Inr first \<Rightarrow>
                 (case getProp first ''message'' of
                    Inl e \<Rightarrow> Inl e
                  | Inr msg \<Rightarrow> if \<not> truthy msg then Inr msg else getProp msg ''function_call'')))"

text \<open>\<open>data.choices[0].message.content\<close>\<close>

definition message_content_of :: "jsval \<Rightarrow> exn + jsval" where
  "message_content_of data =
     (case getProp data ''choices'' of
        Inl e \<Rightarrow> Inl e
      | Inr choices \<Rightarrow>
          (case getIndex choices 0 of
             Inl e \<Rightarrow> Inl e
           | Inr first \<Rightarrow>
               (case getProp first ''message'' of
                  Inl e \<Rightarrow> Inl e
                | Inr msg \<Rightarrow> getProp msg ''content'')))"

text \<open>
  What a call of \<open>callGeminiAPI\<close> has done when the replies of the remote end are used
  up: \<open>returned\<close> is the value the call resolved with (\<open>None\<close> while it still awaits a
  reply), \<open>messages\<close> the array it was given, as it is now, \<open>requests\<close> the \<open>messages\<close>
  of every request it has sent, oldest first, and \<open>written\<close> the text increments that
  the loop of the streaming branch has passed to \<open>process.stdout.write\<close>.
\<close>

record run =
  returned :: "jsval option"
  messages :: "message list"
  world_now :: world
  requests :: "message list list"
  written :: "string list"

definition finished :: "jsval \<Rightarrow> message list \<Rightarrow> world \<Rightarrow> run" where
  "finished v msgs w =
     \<lparr>returned = Some v, messages = msgs, world_now = w, requests = [msgs], written = []\<rparr>"

definition assistant_call :: "jsval \<Rightarrow> jsval \<Rightarrow> message" where
  "assistant_call c functionCall =
     \<lparr>role = ''assistant'', content = c, function_call = functionCall, name = JUndefined\<rparr>"

definition function_result :: "jsval \<Rightarrow> jsval \<Rightarrow> message" where
  "function_result n c =
     \<lparr>role = ''function'', content = c, function_call = JUndefined, name = n\<rparr>"

text \<open>
  The replies of the remote end are given in the order of the requests. Every
  exception inside the \<open>try\<close> ends the call with \<open>null\<close>: in the streaming branch the one
  of the missing body or of \<open>getReader\<close>; in the other branch those of the property
  accesses, of the template literal \<open>`Function call: ${functionCall.name}`\<close> that is
  logged before the tool is dispatched, and of \<open>processToolCall\<close>. After a tool call the
  function calls itself with \<open>stream: false\<close>.
\<close>

fun callGeminiAPI :: "platform \<Rightarrow> bool \<Rightarrow> reply list \<Rightarrow> message list \<Rightarrow> world \<Rightarrow> run" where
  "callGeminiAPI P stream [] msgs w =
     \<lparr>returned = None, messages = msgs, world_now = w, requests = [msgs], written = []\<rparr>"
| "callGeminiAPI P stream (FetchFails m # rest) msgs w = finished JNull msgs w"
| "callGeminiAPI P stream (Response ok body intact # rest) msgs w =
     (if \<not> ok then finished JNull msgs w
      else if stream then
        (case body of
           None \<Rightarrow> finished JNull msgs w
         | Some chunks \<Rightarrow>
             (case getReader chunks of
                Inl e \<Rightarrow> finished JNull msgs w
              | Inr reader \<Rightarrow>
                  (case decode_stream P reader of
                     (out, fullContent) \<Rightarrow>
                       (finished (if intact then JStr fullContent else JNull) msgs w)
                         \<lparr>written := out\<rparr>)))
      else
        (case json P (Response ok body intact) of
           Inl e \<Rightarrow> finished JNull msgs w
         | Inr data \<Rightarrow>
             (case function_call_of data of
                Inl e \<Rightarrow> finished JNull msgs w
              | Inr functionCall \<Rightarrow>
                  if truthy functionCall then
                    (case (getProp functionCall ''name'', getProp functionCall ''arguments'',
                           message_content_of data) of
                       (Inr n, Inr args, Inr c) \<Rightarrow>
                         (case ToString n of
                            Inl e \<Rightarrow> finished JNull msgs w
                          | Inr label \<Rightarrow>
                              (case processToolCall P n args w of
                                 (Inl e, w') \<Rightarrow> finished JNull msgs w'
                               | (Inr toolResult, w') \<Rightarrow>
                                   let r = callGeminiAPI P False rest
                                             (msgs @ [assistant_call c functionCall,
                                                      function_result n
                                                        (JSON_stringify P toolResult)])
                                             w'
                                   in r\<lparr>requests := msgs # requests r\<rparr>))
                     | _ \<Rightarrow> finished JNull msgs w)
                  else
                    (case message_content_of data of
                       Inl e \<Rightarrow> finished JNull msgs w
                     | Inr c \<Rightarrow> finished c msgs w))))"

section \<open>startCLI\<close>

text \<open>
  The health check at the start, on the outcome of \<open>fetch(PROXY_URL/health)\<close>: the
  lines it writes to standard error, and the exit status if it ends the process
  (\<open>PROXY_URL\<close> is a parameter).
\<close>

definition health_check :: "platform \<Rightarrow> string \<Rightarrow> reply \<Rightarrow> string list \<times> int option" where
  "health_check P PROXY_URL healthCheck =
     (case (case json P healthCheck of
              Inl e \<Rightarrow> Inl e
            | Inr healthData \<Rightarrow> getProp healthData ''api_initialized'') of
        Inl e \<Rightarrow>
          ([''Error: Cannot connect to proxy server at '' @ PROXY_URL,
            ''Please start the proxy server first with: npm run start-proxy''],
           Some 1)
      | Inr api_initialized \<Rightarrow>
          if \<not> truthy api_initialized
          then ([''Warning: Gemini API not properly initialized at the proxy server.'',
                 ''Please check that GEMINI_API_KEY is set in the .env file.''],
                None)
          else ([], None))"

text \<open>
  How \<open>startCLI\<close> goes on: the process exits, or the file or directory given with
  \<open>--file\<close> is analysed in one call (after which the process exits), or the conversation
  loop starts with an empty \<open>conversationHistory\<close>.
\<close>

datatype startup = Exit int | OneShot string | Interactive "message list"

definition startCLI :: "platform \<Rightarrow> string \<Rightarrow> string option \<Rightarrow> reply \<Rightarrow> string list \<times> startup" where
  "startCLI P PROXY_URL argv_file healthCheck =
     (case health_check P PROXY_URL healthCheck of
        (diagnostics, Some status) \<Rightarrow> (diagnostics, Exit status)
      | (diagnostics, None) \<Rightarrow>
          (case argv_file of
             Some file \<Rightarrow>
               if file \<noteq> [] then (diagnostics, OneShot file) else (diagnostics, Interactive [])
           | None \<Rightarrow> (diagnostics, Interactive [])))"

definition toLowerCase :: "string \<Rightarrow> string" where
  "toLowerCase s =
     map (\<lambda>c. let n = (of_char c :: nat) in
               if (65 \<le> n \<and> n \<le> 90) \<or> (192 \<le> n \<and> n \<le> 222 \<and> n \<noteq> 215) then char_of (n + 32) else c) s"

text \<open>The message that the handler of a line pushes for the input.\<close>

definition user_message :: "string \<Rightarrow> message" where
  "user_message t =
     \<lparr>role = ''user'', content = JStr t, function_call = JUndefined, name = JUndefined\<rparr>"

text \<open>
  The handler of a line of input, on \<open>conversationHistory\<close>: \<open>Inl\<close> is the exit status
  when the line is the exit command.
\<close>

definition on_line :: "platform \<Rightarrow> bool \<Rightarrow> string \<Rightarrow> reply list \<Rightarrow> message list \<Rightarrow> world \<Rightarrow> int + run" where
  "on_line P stream line replies conversationHistory w =
     (let userInput = trim line in
      if toLowerCase userInput = ''exit'' then Inl 0
      else if userInput \<noteq> [] then
        let r = callGeminiAPI P stream replies
                  (conversationHistory @ [user_message userInput]) w
        in (case returned r of
              Some response \<Rightarrow>
                if truthy response
                then Inr (r\<lparr>messages := messages r
                             @ [\<lparr>role = ''assistant'', content = response,
                                 function_call = JUndefined, name = JUndefined\<rparr>]\<rparr>)
                else Inr r
            | None \<Rightarrow> Inr r)
      else Inr \<lparr>returned = None, messages = conversationHistory, world_now = w, requests = [],
                written = []\<rparr>)"

text \<open>
  A session: the lines of input with the replies the remote end gives during each, on
  \<open>conversationHistory\<close> and the world; the result is \<open>conversationHistory\<close> after the
  last line. The exit command ends the session.
\<close>

fun session ::
  "platform \<Rightarrow> bool \<Rightarrow> (string \<times> reply list) list \<Rightarrow> message list \<Rightarrow> world \<Rightarrow> message list" where
  "session P stream [] conversationHistory w = conversationHistory"
| "session P stream ((line, replies) # later) conversationHistory w =
     (case on_line P stream line replies conversationHistory w of
        Inl status \<Rightarrow> conversationHistory
      | Inr r \<Rightarrow> session P stream later (messages r) (world_now r))"

section \<open>Notions the claims use\<close>

text \<open>A remote call fails: the request is rejected, or the status is not a success.\<close>

fun transport_error :: "reply \<Rightarrow> bool" where
  "transport_error (FetchFails m) = True"
| "transport_error (Response ok body intact) = (\<not> ok)"

text \<open>An assistant message whose tool call names the tool \<open>n\<close>.\<close>

definition calls_tool :: "message \<Rightarrow> jsval \<Rightarrow> bool" where
  "calls_tool a n =
     (role a = ''assistant'' \<and> truthy (function_call a) \<and> getProp (function_call a) ''name'' = Inr n)"

text \<open>
  Every tool-result message of a history has, earlier in the history, an assistant
  message whose tool call names the same tool.
\<close>

definition tool_results_preceded :: "message list \<Rightarrow> bool" where
  "tool_results_preceded h =
     (\<forall>i<length h. role (h ! i) = ''function'' \<longrightarrow> (\<exists>j<i. calls_tool (h ! j) (name (h ! i))))"

text \<open>
  The number of lines of a text, as a text file has them: every line feed ends a line,
  and what follows the last line feed is a line if it is not empty.
\<close>

definition line_count :: "string \<Rightarrow> nat" where
  "line_count s = count_list s CHR 0x0A + (if s = [] \<or> last s = CHR 0x0A then 0 else 1)"

section \<open>A platform and a world to evaluate on\<close>

text \<open>
  The platform of the examples: paths are absolute already, JSON texts are read and
  written by the functions above, a command prints a line and leaves the files alone,
  and the members that are not modelled throw.
\<close>

definition sample_platform :: platform where
  "sample_platform =
     \<lparr>resolve = (\<lambda>p. p), JSON_parse = read_json, JSON_stringify = write_json,
      execSync = (\<lambda>command timeout fs. (Inr (''ran '' @ command), fs)),
      foreign = (\<lambda>member args w. (Inl (Thrown (''unsupported: '' @ member)), w))\<rparr>"

definition sample_world :: world where
  "sample_world =
     \<lparr>files = [''/notes.txt'' \<mapsto> File ''one\<newline>two\<newline>three'',
               ''/log.txt'' \<mapsto> File ''one\<newline>two\<newline>'', ''/tmp'' \<mapsto> Directory],
      spawned = []\<rparr>"

text \<open>
  Replies of the remote end: a tool call of \<open>read_file\<close> with structured arguments, the
  same call with an argument text that is not JSON, and a final answer.
\<close>

definition sample_tool_call :: reply where
  \<open>sample_tool_call =
     Response True
       (Some [''{"choices":[{"message":{"content":null,"function_call":'',
              ''{"name":"read_file","arguments":{"file_path":"/notes.txt","limit":1}}}}]}''])
       True\<close>

definition sample_malformed_call :: reply where
  \<open>sample_malformed_call =
     Response True
       (Some [''{"choices":[{"message":{"content":null,"function_call":'',
              ''{"name":"read_file","arguments":"{"}}}]}''])
       True\<close>

definition sample_answer :: reply where
  \<open>sample_answer =
     Response True (Some [''{"choices":[{"message":{"content":"It has three lines."}}]}'']) True\<close>

section \<open>Facts about strings\<close>

lemma includes_iff: "includesStr s t \<longleftrightarrow> (\<exists>a b. s = a @ t @ b)"
proof (induction s)
  case Nil
  then show ?case by auto
next
  case (Cons c s)
  show ?case
  proof
    assume "includesStr (c # s) t"
    then consider "prefix t (c # s)" | "includesStr s t" by auto
    then show "\<exists>a b. c # s = a @ t @ b"
    proof cases
      case 1
      then obtain b where "c # s = t @ b" by (auto simp: prefix_def)
      then have "c # s = [] @ t @ b" by simp
      then show ?thesis by blast
    next
      case 2
      with Cons.IH obtain a b where "s = a @ t @ b" by blast
      then have "c # s = (c # a) @ t @ b" by simp
      then show ?thesis by blast
    qed
  next
    assume "\<exists>a b. c # s = a @ t @ b"
    then obtain a b where ab: "c # s = a @ t @ b" by blast
    show "includesStr (c # s) t"
    proof (cases a)
      case Nil
      with ab have "prefix t (c # s)" by (simp add: prefix_def)
      then show ?thesis by simp
    next
      case (Cons x a')
      with ab have "s = a' @ t @ b" by simp
      with Cons.IH have "includesStr s t" by blast
      then show ?thesis by simp
    qed
  qed
qed

lemma split_not_Nil: "sep \<noteq> [] \<Longrightarrow> split sep s \<noteq> []"
  by (induction sep s rule: split.induct) (auto split: list.splits)

lemma join_Cons_Cons: "join sep ((c # r) # rs) = c # join sep (r # rs)"
  by (cases rs) auto

lemma join_Nil_Cons: "xs \<noteq> [] \<Longrightarrow> join sep ([] # xs) = sep @ join sep xs"
  by (cases xs) auto

lemma join_split: "sep \<noteq> [] \<Longrightarrow> join sep (split sep s) = s"
proof (induction sep s rule: split.induct)
  case (1 sep)
  then show ?case by simp
next
  case (2 sep c s)
  show ?case
  proof (cases "prefix sep (c # s)")
    case True
    then have whole: "sep @ drop (length sep) (c # s) = c # s"
      by (metis append_eq_conv_conj prefix_def)
    from True 2(3) have unfolded: "split sep (c # s) = [] # split sep (drop (length sep) (c # s))"
      by simp
    from 2 True have "join sep (split sep (drop (length sep) (c # s))) = drop (length sep) (c # s)"
      by simp
    moreover from 2(3) have "split sep (drop (length sep) (c # s)) \<noteq> []"
      by (rule split_not_Nil)
    then have "join sep ([] # split sep (drop (length sep) (c # s)))
               = sep @ join sep (split sep (drop (length sep) (c # s)))"
      by (rule join_Nil_Cons)
    ultimately show ?thesis
      unfolding unfolded using whole by simp
  next
    case False
    with 2 have ih: "join sep (split sep s) = s" by simp
    from 2(3) obtain r rs where rs: "split sep s = r # rs"
      using split_not_Nil [of sep s] by (cases "split sep s") auto
    with False 2(3) ih show ?thesis
      by (simp add: join_Cons_Cons)
  qed
qed

lemma length_split_newline: "length (split [n] s) = Suc (count_list s n)"
proof (induction s)
  case Nil
  then show ?case by simp
next
  case (Cons c s)
  then show ?case
    using split_not_Nil [of "[n]" s] by (auto split: list.splits)
qed

lemma slice_window:
  assumes "0 \<le> offset" and "0 < limit"
  shows "slice xs offset (offset + limit)
         = take (nat (max 0 (min limit (int (length xs) - offset)))) (drop (nat offset) xs)"
proof (cases "offset \<le> int (length xs)")
  case True
  with assms show ?thesis
    by (auto simp: slice_def Let_def min_def max_def intro!: arg_cong2 [where f = take])
next
  case False
  with assms show ?thesis
    by (auto simp: slice_def Let_def min_def max_def)
qed

lemma length_window:
  "length (take (nat (max 0 (min limit (int (length xs) - offset)))) (drop (nat offset) xs))
   = nat (max 0 (min limit (int (length xs) - offset)))" if "0 \<le> offset"
  using that by (auto simp: min_def max_def)

lemma indexOf_first:
  assumes "\<forall>a' b'. a @ t @ b = a' @ t @ b' \<longrightarrow> length a \<le> length a'"
  shows "indexOf (a @ t @ b) t = Some (length a)"
  using assms
proof (induction a)
  case Nil
  show ?case
  proof (cases "t @ b")
    case Nil
    then show ?thesis by simp
  next
    case (Cons c s)
    have "prefix t (t @ b)" by simp
    then have "prefix t (c # s)" unfolding Cons .
    with Cons show ?thesis by simp
  qed
next
  case (Cons x a)
  have "\<not> prefix t (x # a @ t @ b)"
  proof
    assume "prefix t (x # a @ t @ b)"
    then obtain r where "(x # a) @ t @ b = [] @ t @ r" by (auto simp: prefix_def)
    with Cons.prems have "length (x # a) \<le> length ([] :: string)" by blast
    then show False by simp
  qed
  moreover have "\<forall>a' b'. a @ t @ b = a' @ t @ b' \<longrightarrow> length a \<le> length a'"
  proof (intro allI impI)
    fix a' b' assume "a @ t @ b = a' @ t @ b'"
    then have "(x # a) @ t @ b = (x # a') @ t @ b'" by simp
    with Cons.prems have "length (x # a) \<le> length (x # a')" by blast
    then show "length a \<le> length a'" by simp
  qed
  ultimately show ?case using Cons.IH by simp
qed

lemma GetSubstitution_plain:
  "CHR ''$'' \<notin> set r \<Longrightarrow> GetSubstitution m f b r = r"
  by (induction m f b r rule: GetSubstitution.induct) auto

lemma replace_first:
  assumes "\<forall>a' b'. a @ t @ b = a' @ t @ b' \<longrightarrow> length a \<le> length a'"
    and "CHR ''$'' \<notin> set r"
  shows "replace (a @ t @ b) t r = a @ r @ b"
  using indexOf_first [OF assms(1)] assms(2)
  by (simp add: replace_def GetSubstitution_plain)

section \<open>Facts about the conversation\<close>

lemma preceded_snoc:
  assumes "tool_results_preceded h"
    and "role m = ''function'' \<longrightarrow> (\<exists>j<length h. calls_tool (h ! j) (name m))"
  shows "tool_results_preceded (h @ [m])"
  unfolding tool_results_preceded_def
proof (intro allI impI)
  fix i
  assume i: "i < length (h @ [m])" and f: "role ((h @ [m]) ! i) = ''function''"
  show "\<exists>j<i. calls_tool ((h @ [m]) ! j) (name ((h @ [m]) ! i))"
  proof (cases "i < length h")
    case True
    with f have "role (h ! i) = ''function''" by (simp add: nth_append)
    with assms(1) True obtain j where "j < i" and "calls_tool (h ! j) (name (h ! i))"
      unfolding tool_results_preceded_def by blast
    with True have "j < i \<and> calls_tool ((h @ [m]) ! j) (name ((h @ [m]) ! i))"
      by (simp add: nth_append)
    then show ?thesis by blast
  next
    case False
    with i have eq: "i = length h" by simp
    with f have "role m = ''function''" by simp
    with assms(2) obtain j where "j < length h" and "calls_tool (h ! j) (name m)" by blast
    with eq have "j < i \<and> calls_tool ((h @ [m]) ! j) (name ((h @ [m]) ! i))"
      by (simp add: nth_append)
    then show ?thesis by blast
  qed
qed

lemma preceded_tool_call:
  assumes "tool_results_preceded h" and "truthy functionCall"
    and "getProp functionCall ''name'' = Inr n"
  shows "tool_results_preceded (h @ [assistant_call c functionCall, function_result n r])"
proof -
  have a: "tool_results_preceded (h @ [assistant_call c functionCall])"
    using assms(1) by (rule preceded_snoc) (simp add: assistant_call_def)
  have "calls_tool ((h @ [assistant_call c functionCall]) ! length h) (name (function_result n r))"
    using assms(2,3) by (simp add: calls_tool_def assistant_call_def function_result_def)
  then have "\<exists>j<length (h @ [assistant_call c functionCall]).
               calls_tool ((h @ [assistant_call c functionCall]) ! j) (name (function_result n r))"
    by (intro exI [of _ "length h"]) simp
  then have b: "role (function_result n r) = ''function'' \<longrightarrow>
             (\<exists>j<length (h @ [assistant_call c functionCall]).
               calls_tool ((h @ [assistant_call c functionCall]) ! j) (name (function_result n r)))"
    by simp
  from a b have "tool_results_preceded ((h @ [assistant_call c functionCall]) @ [function_result n r])"
    by (rule preceded_snoc)
  then show ?thesis by simp
qed

lemma truthy_getProp: "truthy v \<Longrightarrow> \<exists>x. getProp v k = Inr x"
  by (cases v) auto

lemma processToolCall_converts:
  assumes "processToolCall P n args w = (Inr r, w')"
  shows "\<exists>key. ToString n = Inr key"
proof (cases "ToString n")
  case (Inl e)
  with assms show ?thesis
    by (cases "case args of JStr s \<Rightarrow> JSON_parse P s | _ \<Rightarrow> Inr args")
       (simp_all add: processToolCall_def)
next
  case (Inr key)
  then show ?thesis by blast
qed

lemma callGeminiAPI_cases:
  "(\<exists>v w' out. callGeminiAPI P stream rs msgs w =
        \<lparr>returned = v, messages = msgs, world_now = w', requests = [msgs], written = out\<rparr>)
   \<or> (\<exists>r rest c functionCall n toolResult w'.
        rs = r # rest \<and> truthy functionCall \<and> getProp functionCall ''name'' = Inr n
        \<and> callGeminiAPI P stream rs msgs w =
            (callGeminiAPI P False rest
               (msgs @ [assistant_call c functionCall,
                        function_result n (JSON_stringify P toolResult)]) w')
            \<lparr>requests := msgs # requests (callGeminiAPI P False rest
               (msgs @ [assistant_call c functionCall,
                        function_result n (JSON_stringify P toolResult)]) w')\<rparr>)"
proof (cases rs)
  case Nil
  then show ?thesis by simp
next
  case (Cons r rest)
  show ?thesis
  proof (cases r)
    case (FetchFails m)
    with Cons show ?thesis by (simp add: finished_def)
  next
    case (Response ok body intact)
    show ?thesis
    proof (cases "\<exists>data functionCall n args c toolResult w'.
        ok \<and> \<not> stream \<and> json P (Response ok body intact) = Inr data
        \<and> function_call_of data = Inr functionCall \<and> truthy functionCall
        \<and> getProp functionCall ''name'' = Inr n \<and> getProp functionCall ''arguments'' = Inr args
        \<and> message_content_of data = Inr c \<and> processToolCall P n args w = (Inr toolResult, w')")
      case True
      then obtain data functionCall n args c toolResult w' where
        t: "ok" "\<not> stream" "json P (Response ok body intact) = Inr data"
           "function_call_of data = Inr functionCall" "truthy functionCall"
           "getProp functionCall ''name'' = Inr n" "getProp functionCall ''arguments'' = Inr args"
           "message_content_of data = Inr c" "processToolCall P n args w = (Inr toolResult, w')"
        by blast
      from t(9) obtain key where "ToString n = Inr key"
        using processToolCall_converts by blast
      with t have "callGeminiAPI P stream rs msgs w =
            (callGeminiAPI P False rest
               (msgs @ [assistant_call c functionCall,
                        function_result n (JSON_stringify P toolResult)]) w')
            \<lparr>requests := msgs # requests (callGeminiAPI P False rest
               (msgs @ [assistant_call c functionCall,
                        function_result n (JSON_stringify P toolResult)]) w')\<rparr>"
        using Cons Response by (simp add: Let_def)
      with Cons t(5,6) show ?thesis by blast
    next
      case False
      with Cons Response have "\<exists>v w' out. callGeminiAPI P stream rs msgs w =
        \<lparr>returned = v, messages = msgs, world_now = w', requests = [msgs], written = out\<rparr>"
        by (auto simp: finished_def getReader_def Let_def
                 split: option.splits sum.splits prod.splits)
      then show ?thesis by blast
    qed
  qed
qed

lemma callGeminiAPI_preserves:
  "tool_results_preceded msgs \<Longrightarrow>
   tool_results_preceded (messages (callGeminiAPI P stream rs msgs w))"
proof (induction rs arbitrary: stream msgs w)
  case Nil
  then show ?case by simp
next
  case (Cons r rest)
  from callGeminiAPI_cases [of P stream "r # rest" msgs w]
  consider
    (stop) v w' out where "callGeminiAPI P stream (r # rest) msgs w =
        \<lparr>returned = v, messages = msgs, world_now = w', requests = [msgs], written = out\<rparr>"
  | (call) c functionCall n toolResult w' where "truthy functionCall"
        "getProp functionCall ''name'' = Inr n"
        "messages (callGeminiAPI P stream (r # rest) msgs w) =
         messages (callGeminiAPI P False rest
               (msgs @ [assistant_call c functionCall,
                        function_result n (JSON_stringify P toolResult)]) w')"
    by auto
  then show ?case
  proof cases
    case stop
    with Cons.prems show ?thesis by simp
  next
    case call
    from Cons.prems call(1,2)
    have "tool_results_preceded (msgs @ [assistant_call c functionCall,
                        function_result n (JSON_stringify P toolResult)])"
      by (rule preceded_tool_call)
    then show ?thesis unfolding call(3) by (rule Cons.IH)
  qed
qed

lemma on_line_preserves:
  assumes "tool_results_preceded h" and "on_line P stream line replies h w = Inr r"
  shows "tool_results_preceded (messages r)"
proof (cases "trim line = [] \<or> toLowerCase (trim line) = ''exit''")
  case True
  with assms show ?thesis
    by (auto simp: on_line_def Let_def split: if_splits)
next
  case False
  define u where "u = user_message (trim line)"
  define run where "run = callGeminiAPI P stream replies (h @ [u]) w"
  have "tool_results_preceded (h @ [u])"
    using assms(1) by (rule preceded_snoc) (simp add: u_def user_message_def)
  then have inv: "tool_results_preceded (messages run)"
    unfolding run_def by (rule callGeminiAPI_preserves)
  from False assms(2) consider "r = run"
    | response where "r = run\<lparr>messages := messages run
                             @ [\<lparr>role = ''assistant'', content = response,
                                 function_call = JUndefined, name = JUndefined\<rparr>]\<rparr>"
    by (auto simp: on_line_def Let_def run_def u_def split: option.splits if_splits)
  then show ?thesis
  proof cases
    case 1
    with inv show ?thesis by simp
  next
    case 2
    have "tool_results_preceded (messages run @ [\<lparr>role = ''assistant'', content = response,
                                 function_call = JUndefined, name = JUndefined\<rparr>])"
      using inv by (rule preceded_snoc) simp
    with 2 show ?thesis by simp
  qed
qed

lemma session_preserves:
  "tool_results_preceded h \<Longrightarrow> tool_results_preceded (session P stream turns h w)"
proof (induction turns arbitrary: h w)
  case Nil
  then show ?case by simp
next
  case (Cons t turns)
  obtain line replies where t: "t = (line, replies)" by (cases t)
  show ?case
  proof (cases "on_line P stream line replies h w")
    case (Inl status)
    with t Cons.prems show ?thesis by simp
  next
    case (Inr r)
    with Cons.prems have "tool_results_preceded (messages r)" by (intro on_line_preserves)
    then have "tool_results_preceded (session P stream turns (messages r) (world_now r))"
      by (rule Cons.IH)
    with t Inr show ?thesis by simp
  qed
qed

lemma preceded_Nil: "tool_results_preceded []"
  by (simp add: tool_results_preceded_def)

lemma requests_first: "\<exists>more. requests (callGeminiAPI P stream rs msgs w) = msgs # more"
  using callGeminiAPI_cases [of P stream rs msgs w] by auto

lemma messages_extend: "\<exists>extra. messages (callGeminiAPI P stream rs msgs w) = msgs @ extra"
proof (induction rs arbitrary: stream msgs w)
  case Nil
  then show ?case by simp
next
  case (Cons r rest)
  from callGeminiAPI_cases [of P stream "r # rest" msgs w]
  consider
    (stop) v w' out where "callGeminiAPI P stream (r # rest) msgs w =
        \<lparr>returned = v, messages = msgs, world_now = w', requests = [msgs], written = out\<rparr>"
  | (call) m' w' where
        "messages (callGeminiAPI P stream (r # rest) msgs w) =
         messages (callGeminiAPI P False rest (msgs @ m') w')"
    by auto
  then show ?case
  proof cases
    case stop
    then show ?thesis by simp
  next
    case call
    from Cons.IH [of False "msgs @ m'" w'] obtain extra where
      "messages (callGeminiAPI P False rest (msgs @ m') w') = (msgs @ m') @ extra" by blast
    with call show ?thesis by simp
  qed
qed

lemma requests_chain:
  "Suc i < length (requests (callGeminiAPI P stream rs msgs w)) \<Longrightarrow>
   \<exists>a f. requests (callGeminiAPI P stream rs msgs w) ! Suc i
           = requests (callGeminiAPI P stream rs msgs w) ! i @ [a, f]
         \<and> calls_tool a (name f) \<and> role f = ''function''"
proof (induction rs arbitrary: stream msgs w i)
  case Nil
  then show ?case by simp
next
  case (Cons r rest)
  from callGeminiAPI_cases [of P stream "r # rest" msgs w]
  consider
    (stop) v w' out where "callGeminiAPI P stream (r # rest) msgs w =
        \<lparr>returned = v, messages = msgs, world_now = w', requests = [msgs], written = out\<rparr>"
  | (call) c functionCall n toolResult w' where "truthy functionCall"
        "getProp functionCall ''name'' = Inr n"
        "requests (callGeminiAPI P stream (r # rest) msgs w) =
         msgs # requests (callGeminiAPI P False rest
               (msgs @ [assistant_call c functionCall,
                        function_result n (JSON_stringify P toolResult)]) w')"
    by auto
  then show ?case
  proof cases
    case stop
    with Cons.prems show ?thesis by simp
  next
    case call
    define a where "a = assistant_call c functionCall"
    define f where "f = function_result n (JSON_stringify P toolResult)"
    define nxt where "nxt = callGeminiAPI P False rest (msgs @ [a, f]) w'"
    from call(3) have req: "requests (callGeminiAPI P stream (r # rest) msgs w) = msgs # requests nxt"
      by (simp add: a_def f_def nxt_def)
    obtain later where first: "requests nxt = (msgs @ [a, f]) # later"
      unfolding nxt_def using requests_first by blast
    from call(1,2) have af: "calls_tool a (name f) \<and> role f = ''function''"
      by (simp add: calls_tool_def a_def f_def assistant_call_def function_result_def)
    show ?thesis
    proof (cases i)
      case 0
      with req first af show ?thesis by auto
    next
      case (Suc k)
      with Cons.prems req have "Suc k < length (requests nxt)" by simp
      from Cons.IH [OF this [unfolded nxt_def]] Suc req show ?thesis
        by (simp add: nxt_def)
    qed
  qed
qed

section \<open>Facts about the dispatcher\<close>

text \<open>
  What \<open>processToolCall\<close> does when the arguments are structured or parse: if the
  name converts to a string it returns a result, whatever the member does, and a name
  that the registry does not know, its prototype included, gives the error
  \<open>Unknown tool\<close>; if the conversion of the name throws, so does \<open>processToolCall\<close>.
\<close>

lemma processToolCall_parse_failure:
  "JSON_parse P s = Inl m \<Longrightarrow> processToolCall P n (JStr s) w = (Inl (SyntaxError m), w)"
  by (simp add: processToolCall_def)

lemma processToolCall_returns:
  assumes "\<And>s. args = JStr s \<Longrightarrow> \<exists>v. JSON_parse P s = Inr v"
    and "ToString n = Inr key"
  shows "\<exists>r w'. processToolCall P n args w = (Inr r, w')"
proof -
  obtain parsedArgs where p: "(case args of JStr s \<Rightarrow> JSON_parse P s | _ \<Rightarrow> Inr args) = Inr parsedArgs"
    using assms(1) by (cases args) auto
  show ?thesis
  proof (cases "toolImplementations P key")
    case None
    with p assms(2) show ?thesis by (simp add: processToolCall_def)
  next
    case (Some member)
    obtain x w' where "member parsedArgs w = (x, w')" by (cases "member parsedArgs w")
    with p Some assms(2) show ?thesis by (cases x) (simp_all add: processToolCall_def)
  qed
qed

lemma processToolCall_unknown:
  assumes "ToString n = Inr key"
    and "key \<notin> set [''read_file'', ''write_file'', ''edit_file'', ''list_directory'',
                      ''search_code'', ''execute_command''] \<union> set Object_prototype"
    and "\<And>s. args = JStr s \<Longrightarrow> \<exists>v. JSON_parse P s = Inr v"
  shows "processToolCall P n args w = (Inr (error_result (''Unknown tool: '' @ key)), w)"
proof -
  obtain parsedArgs where p: "(case args of JStr s \<Rightarrow> JSON_parse P s | _ \<Rightarrow> Inr args) = Inr parsedArgs"
    using assms(3) by (cases args) auto
  from assms(2) have "toolImplementations P key = None"
    by (simp add: toolImplementations_def)
  with p assms(1) show ?thesis by (simp add: processToolCall_def)
qed

lemma processToolCall_name_throws:
  assumes "\<And>s. args = JStr s \<Longrightarrow> \<exists>v. JSON_parse P s = Inr v"
    and "ToString n = Inl e"
  shows "processToolCall P n args w = (Inl e, w)"
proof -
  obtain parsedArgs where p: "(case args of JStr s \<Rightarrow> JSON_parse P s | _ \<Rightarrow> Inr args) = Inr parsedArgs"
    using assms(1) by (cases args) auto
  with assms(2) show ?thesis by (simp add: processToolCall_def)
qed

lemma health_false: \<open>read_json ''{"api_initialized": false}'' = Inr (JObj [(''api_initialized'', JBool False)])\<close>
  by code_simp

section \<open>The sample conversation, evaluated\<close>

lemma read_file_world: "snd (read_file P file_path offset limit w) = w"
  by (simp add: read_file_def Let_def split: option.splits node.splits)

lemma sample_json:
  \<open>json sample_platform sample_tool_call =
     Inr (JObj [(''choices'', JArr [JObj [(''message'',
           JObj [(''content'', JNull),
                 (''function_call'',
                  JObj [(''name'', JStr ''read_file''),
                        (''arguments'', JObj [(''file_path'', JStr ''/notes.txt''),
                                              (''limit'', JNum 1 0)])])])]])])\<close>
  \<open>json sample_platform sample_malformed_call =
     Inr (JObj [(''choices'', JArr [JObj [(''message'',
           JObj [(''content'', JNull),
                 (''function_call'',
                  JObj [(''name'', JStr ''read_file''), (''arguments'', JStr ''{'')])])]])])\<close>
  \<open>json sample_platform sample_answer =
     Inr (JObj [(''choices'', JArr [JObj [(''message'',
           JObj [(''content'', JStr ''It has three lines.'')])]])])\<close>
  by code_simp+

lemma sample_read:
  "read_file sample_platform ''/notes.txt'' 0 1 sample_world =
     (JObj [(''content'', JStr ''     1  one''), (''total_lines'', JNum 3 0),
            (''displayed_lines'', JNum 1 0)], sample_world)"
proof (rule prod_eqI)
  show "fst (read_file sample_platform ''/notes.txt'' 0 1 sample_world) =
        fst (JObj [(''content'', JStr ''     1  one''), (''total_lines'', JNum 3 0),
            (''displayed_lines'', JNum 1 0)], sample_world)"
    by code_simp
  show "snd (read_file sample_platform ''/notes.txt'' 0 1 sample_world) =
        snd (JObj [(''content'', JStr ''     1  one''), (''total_lines'', JNum 3 0),
            (''displayed_lines'', JNum 1 0)], sample_world)"
    by (simp add: read_file_world)
qed

lemma sample_dispatch:
  "processToolCall sample_platform (JStr ''read_file'')
     (JObj [(''file_path'', JStr ''/notes.txt''), (''limit'', JNum 1 0)]) sample_world =
   (Inr (JObj [(''content'', JStr ''     1  one''), (''total_lines'', JNum 3 0),
               (''displayed_lines'', JNum 1 0)]), sample_world)"
  by (simp add: processToolCall_def toolImplementations_def read_file_member_def own_def
        integer_or_def as_integer_def sample_read)

lemma sample_stream:
  \<open>decode_stream sample_platform
     [''data: {"choices":[{"delta":{"content":"Hel"}}]}\<newline>\<newline>data: {"choices":[{"delta":{"content":"lo"}}]}\<newline>\<newline>data: [DONE]\<newline>\<newline>'']
   = ([''Hel'', ''lo''], ''Hello'')\<close>
  by code_simp

lemma sample_line:
  "trim ''How long is it?'' = ''How long is it?''"
  "toLowerCase ''How long is it?'' = ''how long is it?''"
  by code_simp+

lemma sample_parse_failure: "JSON_parse sample_platform ''{'' = Inl ''Unexpected token in JSON''"
  by code_simp

lemma sample_fields:
  "function_call_of (JObj [(''choices'', JArr [JObj [(''message'',
           JObj [(''content'', JNull),
                 (''function_call'',
                  JObj [(''name'', JStr ''read_file''),
                        (''arguments'', JObj [(''file_path'', JStr ''/notes.txt''),
                                              (''limit'', JNum 1 0)])])])]])])
   = Inr (JObj [(''name'', JStr ''read_file''),
          (''arguments'', JObj [(''file_path'', JStr ''/notes.txt''), (''limit'', JNum 1 0)])])"
  "message_content_of (JObj [(''choices'', JArr [JObj [(''message'',
           JObj [(''content'', JNull),
                 (''function_call'',
                  JObj [(''name'', JStr ''read_file''),
                        (''arguments'', JObj [(''file_path'', JStr ''/notes.txt''),
                                              (''limit'', JNum 1 0)])])])]])])
   = Inr JNull"
  "getProp (JObj [(''name'', JStr ''read_file''),
          (''arguments'', JObj [(''file_path'', JStr ''/notes.txt''), (''limit'', JNum 1 0)])]) ''name'' = Inr (JStr ''read_file'')"
  "getProp (JObj [(''name'', JStr ''read_file''),
          (''arguments'', JObj [(''file_path'', JStr ''/notes.txt''), (''limit'', JNum 1 0)])]) ''arguments''
   = Inr (JObj [(''file_path'', JStr ''/notes.txt''), (''limit'', JNum 1 0)])"
  by (simp_all add: function_call_of_def message_content_of_def own_def)

lemma sample_answer_fields:
  "function_call_of (JObj [(''choices'', JArr [JObj [(''message'',
           JObj [(''content'', JStr ''It has three lines.'')])]])]) = Inr JUndefined"
  "message_content_of (JObj [(''choices'', JArr [JObj [(''message'',
           JObj [(''content'', JStr ''It has three lines.'')])]])])
   = Inr (JStr ''It has three lines.'')"
  by (simp_all add: function_call_of_def message_content_of_def own_def)

lemma sample_stringify:
  \<open>JSON_stringify sample_platform
     (JObj [(''content'', JStr ''     1  one''), (''total_lines'', JNum 3 0),
          (''displayed_lines'', JNum 1 0)])
   = JStr ''{"content":"     1  one","total_lines":3,"displayed_lines":1}''\<close>
  by code_simp

lemma sample_run:
  \<open>callGeminiAPI sample_platform False [sample_tool_call, sample_answer]
     [user_message ''How long is it?''] sample_world =
   \<lparr>returned = Some (JStr ''It has three lines.''),
    messages =
      [user_message ''How long is it?'',
       assistant_call JNull
        (JObj [(''name'', JStr ''read_file''),
          (''arguments'', JObj [(''file_path'', JStr ''/notes.txt''), (''limit'', JNum 1 0)])]),
       function_result (JStr ''read_file'')
        (JStr ''{"content":"     1  one","total_lines":3,"displayed_lines":1}'')],
    world_now = sample_world,
    requests =
      [[user_message ''How long is it?''],
       [user_message ''How long is it?'',
        assistant_call JNull
        (JObj [(''name'', JStr ''read_file''),
          (''arguments'', JObj [(''file_path'', JStr ''/notes.txt''), (''limit'', JNum 1 0)])]),
        function_result (JStr ''read_file'')
        (JStr ''{"content":"     1  one","total_lines":3,"displayed_lines":1}'')]],
    written = []\<rparr>\<close>
proof -
  have "callGeminiAPI sample_platform False [sample_answer] m sample_world
        = finished (JStr ''It has three lines.'') m sample_world" for m
    using sample_json(3) unfolding sample_answer_def
    by (simp add: sample_answer_fields del: json.simps)
  with sample_json(1) sample_dispatch show ?thesis
    unfolding sample_tool_call_def
    by (simp add: sample_fields sample_stringify finished_def own_def Let_def del: json.simps)
qed

section \<open>Facts about calls that end with null\<close>

text \<open>A streaming call decodes nothing: whatever the response is, it ends with \<open>null\<close>.\<close>

lemma streaming_call:
  "callGeminiAPI P True (r # rest) msgs w = finished JNull msgs w"
proof (cases r)
  case (FetchFails m)
  then show ?thesis by simp
next
  case (Response ok body intact)
  then show ?thesis by (cases body) (simp_all add: getReader_def)
qed

text \<open>
  A call that has sent a request after each of the replies \<open>calls\<close>, the last of which
  fails: every one of those replies was a tool call that was dispatched, and each has
  left its two messages in the array.
\<close>

lemma aborted_run:
  assumes "transport_error failing"
  shows "length (requests (callGeminiAPI P stream (calls @ failing # rest) msgs w)) = Suc (length calls) \<Longrightarrow>
    \<exists>pairs. length pairs = length calls
      \<and> list_all (\<lambda>(a, f). calls_tool a (name f) \<and> role f = ''function'') pairs
      \<and> returned (callGeminiAPI P stream (calls @ failing # rest) msgs w) = Some JNull
      \<and> messages (callGeminiAPI P stream (calls @ failing # rest) msgs w)
          = msgs @ concat (map (\<lambda>(a, f). [a, f]) pairs)"
proof (induction calls arbitrary: stream msgs w)
  case Nil
  from assms have "callGeminiAPI P stream (failing # rest) msgs w = finished JNull msgs w"
    by (cases failing) simp_all
  then have "length ([] :: (message \<times> message) list) = length ([] :: reply list)
      \<and> list_all (\<lambda>(a, f). calls_tool a (name f) \<and> role f = ''function'') []
      \<and> returned (callGeminiAPI P stream ([] @ failing # rest) msgs w) = Some JNull
      \<and> messages (callGeminiAPI P stream ([] @ failing # rest) msgs w)
          = msgs @ concat (map (\<lambda>(a, f). [a, f]) [])"
    by (simp add: finished_def)
  then show ?case by blast
next
  case (Cons r0 calls)
  from callGeminiAPI_cases [of P stream "(r0 # calls) @ failing # rest" msgs w]
  consider
    (stop) v w' out where "callGeminiAPI P stream ((r0 # calls) @ failing # rest) msgs w =
        \<lparr>returned = v, messages = msgs, world_now = w', requests = [msgs], written = out\<rparr>"
  | (call) c functionCall n toolResult w' where "truthy functionCall"
        "getProp functionCall ''name'' = Inr n"
        "callGeminiAPI P stream ((r0 # calls) @ failing # rest) msgs w =
         (callGeminiAPI P False (calls @ failing # rest)
               (msgs @ [assistant_call c functionCall,
                        function_result n (JSON_stringify P toolResult)]) w')
         \<lparr>requests := msgs # requests (callGeminiAPI P False (calls @ failing # rest)
               (msgs @ [assistant_call c functionCall,
                        function_result n (JSON_stringify P toolResult)]) w')\<rparr>"
    by auto
  then show ?case
  proof cases
    case stop
    with Cons.prems show ?thesis by simp
  next
    case call
    define a where "a = assistant_call c functionCall"
    define f where "f = function_result n (JSON_stringify P toolResult)"
    define nxt where "nxt = callGeminiAPI P False (calls @ failing # rest) (msgs @ [a, f]) w'"
    from call(3) have run: "callGeminiAPI P stream ((r0 # calls) @ failing # rest) msgs w
                            = nxt\<lparr>requests := msgs # requests nxt\<rparr>"
      by (simp add: a_def f_def nxt_def)
    with Cons.prems have "length (requests nxt) = Suc (length calls)" by simp
    from Cons.IH [OF this [unfolded nxt_def]] obtain pairs where
      p: "length pairs = length calls"
         "list_all (\<lambda>(a, f). calls_tool a (name f) \<and> role f = ''function'') pairs"
         "returned nxt = Some JNull"
         "messages nxt = (msgs @ [a, f]) @ concat (map (\<lambda>(a, f). [a, f]) pairs)"
      unfolding nxt_def by blast
    from call(1,2) have af: "calls_tool a (name f) \<and> role f = ''function''"
      by (simp add: calls_tool_def a_def f_def assistant_call_def function_result_def)
    from p af run have "length ((a, f) # pairs) = length (r0 # calls)
      \<and> list_all (\<lambda>(a, f). calls_tool a (name f) \<and> role f = ''function'') ((a, f) # pairs)
      \<and> returned (callGeminiAPI P stream ((r0 # calls) @ failing # rest) msgs w) = Some JNull
      \<and> messages (callGeminiAPI P stream ((r0 # calls) @ failing # rest) msgs w)
          = msgs @ concat (map (\<lambda>(a, f). [a, f]) ((a, f) # pairs))"
      by simp
    then show ?thesis by blast
  qed
qed

section \<open>Facts about read\_file\<close>

text \<open>
  \<open>read_file\<close> on its window of lines, and the member of the registry on an argument
  object in which \<open>offset\<close> and \<open>limit\<close> are absent or integers.
\<close>

lemma read_file_slice:
  assumes "files w (resolve P file_path) = Some (File contents)" and "0 \<le> offset" and "0 < limit"
  shows "read_file P file_path offset limit w =
      (JObj [(''content'', JStr (join ''\<newline>''
                (map (\<lambda>(i, line). padStart 6 (int_toString (int i + offset + 1)) @ ''  '' @ line)
                   (zip [0..<nat (max 0 (min limit (int (length (split ''\<newline>'' contents)) - offset)))]
                      (take (nat (max 0 (min limit (int (length (split ''\<newline>'' contents)) - offset))))
                         (drop (nat offset) (split ''\<newline>'' contents))))))),
             (''total_lines'', JNum (int (length (split ''\<newline>'' contents))) 0),
             (''displayed_lines'', JNum (int (nat (max 0 (min limit (int (length (split ''\<newline>'' contents)) - offset))))) 0)], w)"
proof -
  from assms have s: "slice (split ''\<newline>'' contents) offset (offset + limit)
     = take (nat (max 0 (min limit (int (length (split ''\<newline>'' contents)) - offset)))) (drop (nat offset) (split ''\<newline>'' contents))"
    by (simp add: slice_window)
  have l: "length (take (nat (max 0 (min limit (int (length (split ''\<newline>'' contents)) - offset)))) (drop (nat offset) (split ''\<newline>'' contents)))
     = nat (max 0 (min limit (int (length (split ''\<newline>'' contents)) - offset)))"
    using assms by (intro length_window) simp
  have "read_file P file_path offset limit w =
        (JObj [(''content'', JStr (join ''\<newline>''
                (map (\<lambda>(i, line). number_line offset i line)
                   (zip [0..<length (slice (split ''\<newline>'' contents) offset (offset + limit))]
                      (slice (split ''\<newline>'' contents) offset (offset + limit)))))),
             (''total_lines'', JNum (int (length (split ''\<newline>'' contents))) 0),
             (''displayed_lines'',
              JNum (int (length (slice (split ''\<newline>'' contents) offset (offset + limit)))) 0)], w)"
    using assms by (simp add: read_file_def Let_def)
  then show ?thesis
    unfolding s l number_line_def .
qed

lemma read_file_member_defaults:
  assumes "own ps ''file_path'' = JStr file_path"
    and "own ps ''offset'' = JUndefined \<and> offset = 0 \<or> own ps ''offset'' = JNum offset 0"
    and "own ps ''limit'' = JUndefined \<and> limit = 2000 \<or> own ps ''limit'' = JNum limit 0"
  shows "read_file_member P (JObj ps) w = (Inr (fst (read_file P file_path offset limit w)), w)"
proof -
  from assms(2) have o: "integer_or 0 (own ps ''offset'') = Some offset"
    by (auto simp: integer_or_def as_integer_def)
  from assms(3) have l: "integer_or 2000 (own ps ''limit'') = Some limit"
    by (auto simp: integer_or_def as_integer_def)
  obtain r w' where r: "read_file P file_path offset limit w = (r, w')"
    by (cases "read_file P file_path offset limit w")
  with read_file_world [of P file_path offset limit w] have "w' = w" by simp
  with r assms(1) o l show ?thesis
    by (simp add: read_file_member_def)
qed

lemma line_count_split:
  "length (split ''\<newline>'' contents)
   = line_count contents + (if contents = [] \<or> last contents = CHR 0x0A then 1 else 0)"
  by (simp add: length_split_newline line_count_def)

section \<open>Further evaluations\<close>

text \<open>Two tool calls that are dispatched, and then a request that fails.\<close>

lemma sample_aborted_run:
  \<open>callGeminiAPI sample_platform False
     [sample_tool_call, sample_tool_call, FetchFails ''socket hang up'']
     [user_message ''How long is it?''] sample_world =
   \<lparr>returned = Some JNull,
    messages =
      [user_message ''How long is it?'',
       assistant_call JNull
        (JObj [(''name'', JStr ''read_file''),
          (''arguments'', JObj [(''file_path'', JStr ''/notes.txt''), (''limit'', JNum 1 0)])]),
       function_result (JStr ''read_file'')
        (JStr ''{"content":"     1  one","total_lines":3,"displayed_lines":1}''),
       assistant_call JNull
        (JObj [(''name'', JStr ''read_file''),
          (''arguments'', JObj [(''file_path'', JStr ''/notes.txt''), (''limit'', JNum 1 0)])]),
       function_result (JStr ''read_file'')
        (JStr ''{"content":"     1  one","total_lines":3,"displayed_lines":1}'')],
    world_now = sample_world,
    requests =
      [[user_message ''How long is it?''],
       [user_message ''How long is it?'',
        assistant_call JNull
        (JObj [(''name'', JStr ''read_file''),
          (''arguments'', JObj [(''file_path'', JStr ''/notes.txt''), (''limit'', JNum 1 0)])]),
        function_result (JStr ''read_file'')
        (JStr ''{"content":"     1  one","total_lines":3,"displayed_lines":1}'')],
       [user_message ''How long is it?'',
        assistant_call JNull
        (JObj [(''name'', JStr ''read_file''),
          (''arguments'', JObj [(''file_path'', JStr ''/notes.txt''), (''limit'', JNum 1 0)])]),
        function_result (JStr ''read_file'')
        (JStr ''{"content":"     1  one","total_lines":3,"displayed_lines":1}''),
        assistant_call JNull
        (JObj [(''name'', JStr ''read_file''),
          (''arguments'', JObj [(''file_path'', JStr ''/notes.txt''), (''limit'', JNum 1 0)])]),
        function_result (JStr ''read_file'')
        (JStr ''{"content":"     1  one","total_lines":3,"displayed_lines":1}'')]],
    written = []\<rparr>\<close>
  using sample_json(1) sample_dispatch unfolding sample_tool_call_def
  by (simp add: sample_fields sample_stringify finished_def own_def Let_def del: json.simps)

lemma health_unavailable:
  \<open>read_json ''{"detail": "Service Unavailable"}''
   = Inr (JObj [(''detail'', JStr ''Service Unavailable'')])\<close>
  by code_simp

lemma sample_numerals:
  "int_toString 1 = ''1''" "int_toString 2 = ''2''" "int_toString 3 = ''3''"
  "replicate 5 CHR '' '' = ''     ''"
  by code_simp+

text \<open>
  The loop of the streaming branch as it is written, on the chunks a reader would
  deliver: the stream of the specification's example in one chunk, the same stream cut
  inside its second frame, and a frame after the end-of-stream marker.
\<close>

lemma decode_stream_split_frame:
  \<open>decode_stream sample_platform
       [''data: {"choices":[{"delta":{"content":"Hel"}}]}\<newline>\<newline>data: {"choices":[{"delta":{"con'',
        ''tent":"lo"}}]}\<newline>\<newline>data: [DONE]\<newline>\<newline>'']
     = ([''Hel''], ''Hel'')\<close>
  by code_simp

lemma decode_stream_after_sentinel:
  \<open>decode_stream sample_platform
     [''data: [DONE]\<newline>\<newline>data: {"choices":[{"delta":{"content":"late"}}]}\<newline>\<newline>'']
   = ([''late''], ''late'')\<close>
  by code_simp

section \<open>Claims\<close>

text \<open>
  C1. A command that contains an entry of the deny-list as a substring is rejected:
  \<open>execute_command\<close> returns the object \<open>{error: "Command not allowed for security
  reasons: <command>"}\<close>, which names the command, and nothing is spawned: the world,
  file system and log of spawned commands included, is returned as it was received, and
  the platform's \<open>execSync\<close> has no influence on the outcome.
\<close>

theorem execute_command_rejects_forbidden:
  assumes "f \<in> set forbiddenCommands" and "command = pre @ f @ post"
  shows "execute_command P command timeout w =
           (JObj [(''error'', JStr (''Command not allowed for security reasons: '' @ command))], w)"
proof -
  from assms(2) have "includesStr command f"
    by (auto simp: includes_iff)
  with assms(1) have "list_ex (includesStr command) forbiddenCommands"
    by (auto simp: list_ex_iff)
  then show ?thesis
    by (simp add: execute_command_def error_result_def)
qed

theorem execute_command_rejects_forbidden_witness:
  "''rm -rf'' \<in> set forbiddenCommands \<and> ''rm -rf /'' = [] @ ''rm -rf'' @ '' /''
   \<and> execute_command sample_platform ''rm -rf /'' 60000 sample_world =
         (JObj [(''error'', JStr ''Command not allowed for security reasons: rm -rf /'')],
          sample_world)"
  using execute_command_rejects_forbidden
    [where f = "''rm -rf''" and command = "''rm -rf /''" and pre = "[]" and post = "'' /''"
       and P = sample_platform and timeout = 60000 and w = sample_world]
  by (simp add: forbiddenCommands_def)

text \<open>
  C5. For an existing file whose contents do not contain \<open>old_string\<close>, \<open>edit_file\<close>
  returns an error result and writes nothing: the world it returns, the file system
  included, is the world it received.
\<close>

theorem edit_file_absent_no_write:
  assumes "files w (resolve P file_path) = Some (File contents)"
    and "\<not> (\<exists>a b. contents = a @ old_string @ b)"
  shows "edit_file P file_path old_string new_string w =
           (JObj [(''error'', JStr (''Text not found in file: '' @ take 50 old_string
                     @ (if 50 < length old_string then ''...'' else [])))], w)"
  using assms by (simp add: edit_file_def error_result_def includes_iff)

theorem edit_file_absent_no_write_witness:
  "files sample_world (resolve sample_platform ''/notes.txt'') = Some (File ''one\<newline>two\<newline>three'')
   \<and> \<not> (\<exists>a b. ''one\<newline>two\<newline>three'' = a @ ''four'' @ b)
   \<and> edit_file sample_platform ''/notes.txt'' ''four'' ''five'' sample_world =
       (JObj [(''error'', JStr ''Text not found in file: four'')], sample_world)"
proof -
  have f: "files sample_world (resolve sample_platform ''/notes.txt'') = Some (File ''one\<newline>two\<newline>three'')"
    by (simp add: sample_world_def sample_platform_def)
  have n: "\<not> (\<exists>a b. ''one\<newline>two\<newline>three'' = a @ ''four'' @ b)"
    unfolding includes_iff [symmetric] by simp
  from edit_file_absent_no_write [OF f n, of "''five''"] f n show ?thesis by simp
qed

text \<open>
  C6. The claim says that the first occurrence of \<open>old_string\<close> is replaced by the
  literal \<open>new_string\<close>, for every \<open>new_string\<close>. \<open>String.prototype.replace\<close> reads its
  second argument as a replacement pattern: with \<open>new_string = "$$9"\<close> the file
  \<open>one, two, three\<close> is written back with \<open>$9\<close> in the place of \<open>two\<close>, not with
  \<open>$$9\<close>, and success is reported.
\<close>

theorem edit_file_dollar:
  "edit_file sample_platform ''/notes.txt'' ''two'' ''$$9'' sample_world =
     (JObj [(''success'', JBool True), (''message'', JStr ''File edited successfully: /notes.txt''),
            (''replacements'', JNum 1 0)],
      sample_world\<lparr>files := (files sample_world)(''/notes.txt'' \<mapsto> File ''one\<newline>$9\<newline>three'')\<rparr>)
   \<and> ''one\<newline>$9\<newline>three'' \<noteq> ''one\<newline>'' @ ''$$9'' @ ''\<newline>three''"
  by (simp add: edit_file_def sample_world_def sample_platform_def replace_def Let_def)

text \<open>
  Where \<open>new_string\<close> has no dollar sign, the edit is the one the claim describes: the
  first occurrence of \<open>old_string\<close> is replaced by \<open>new_string\<close> and everything around
  it stays.
\<close>

lemma edit_file_first_occurrence:
  assumes "files w (resolve P file_path) = Some (File (a @ old_string @ b))"
    and "\<forall>a' b'. a @ old_string @ b = a' @ old_string @ b' \<longrightarrow> length a \<le> length a'"
    and "CHR ''$'' \<notin> set new_string"
  shows "edit_file P file_path old_string new_string w =
           (JObj [(''success'', JBool True),
                  (''message'', JStr (''File edited successfully: '' @ file_path)),
                  (''replacements'', JNum 1 0)],
            w\<lparr>files := (files w)(resolve P file_path \<mapsto> File (a @ new_string @ b))\<rparr>)"
proof -
  have "includesStr (a @ old_string @ b) old_string"
    unfolding includes_iff by blast
  with assms(1) replace_first [OF assms(2,3)] show ?thesis
    by (simp add: edit_file_def Let_def)
qed

text \<open>
  C7, as the code has it. The tool receives an argument object; an \<open>offset\<close> that is
  absent stands for 0 and a \<open>limit\<close> that is absent for 2000. A missing file yields the
  error result \<open>File not found\<close>. For an existing file, an offset \<open>o \<ge> 0\<close> and a limit
  \<open>l > 0\<close>, the tool succeeds with \<open>n = max 0 (min l (total - o))\<close> lines: the lines
  \<open>o + 1\<close> to \<open>o + n\<close> of the file, each behind its number padded to six places and two
  spaces; \<open>displayed_lines\<close> is \<open>n\<close> and \<open>total_lines\<close> is \<open>total\<close>, the number of pieces
  that the line feeds cut the contents into. That is the number of lines of the file
  when the contents are not empty and do not end in a line feed, and one more
  otherwise. The world is unchanged.
\<close>

theorem read_file_window:
  assumes "own ps ''file_path'' = JStr file_path"
    and "own ps ''offset'' = JUndefined \<and> offset = 0 \<or> own ps ''offset'' = JNum offset 0"
    and "own ps ''limit'' = JUndefined \<and> limit = 2000 \<or> own ps ''limit'' = JNum limit 0"
  shows "(files w (resolve P file_path) = None \<longrightarrow>
      read_file_member P (JObj ps) w
        = (Inr (JObj [(''error'', JStr (''File not found: '' @ file_path))]), w))
   \<and> (\<forall>contents. files w (resolve P file_path) = Some (File contents) \<and> 0 \<le> offset \<and> 0 < limit \<longrightarrow>
        (let lines = split ''\<newline>'' contents;
             n = nat (max 0 (min limit (int (length lines) - offset)));
             selected = take n (drop (nat offset) lines)
         in read_file_member P (JObj ps) w =
              (Inr (JObj [(''content'', JStr (join ''\<newline>''
                        (map (\<lambda>(i, line). padStart 6 (int_toString (int i + offset + 1)) @ ''  '' @ line)
                             (zip [0..<n] selected)))),
                     (''total_lines'', JNum (int (length lines)) 0),
                     (''displayed_lines'', JNum (int n) 0)]), w)
            \<and> length selected = n
            \<and> length lines
                = line_count contents + (if contents = [] \<or> last contents = CHR 0x0A then 1 else 0)
            \<and> join ''\<newline>'' lines = contents))"
proof (intro conjI allI impI)
  assume "files w (resolve P file_path) = None"
  then have "read_file P file_path offset limit w
             = (JObj [(''error'', JStr (''File not found: '' @ file_path))], w)"
    by (simp add: read_file_def error_result_def)
  with read_file_member_defaults [OF assms, of P w]
  show "read_file_member P (JObj ps) w
        = (Inr (JObj [(''error'', JStr (''File not found: '' @ file_path))]), w)"
    by simp
next
  fix contents
  assume a: "files w (resolve P file_path) = Some (File contents) \<and> 0 \<le> offset \<and> 0 < limit"
  then have r: "read_file P file_path offset limit w =
      (JObj [(''content'', JStr (join ''\<newline>''
                (map (\<lambda>(i, line). padStart 6 (int_toString (int i + offset + 1)) @ ''  '' @ line)
                   (zip [0..<nat (max 0 (min limit (int (length (split ''\<newline>'' contents)) - offset)))]
                      (take (nat (max 0 (min limit (int (length (split ''\<newline>'' contents)) - offset))))
                         (drop (nat offset) (split ''\<newline>'' contents))))))),
             (''total_lines'', JNum (int (length (split ''\<newline>'' contents))) 0),
             (''displayed_lines'', JNum (int (nat (max 0 (min limit (int (length (split ''\<newline>'' contents)) - offset))))) 0)], w)"
    by (intro read_file_slice) simp_all
  have l: "length (take (nat (max 0 (min limit (int (length (split ''\<newline>'' contents)) - offset)))) (drop (nat offset) (split ''\<newline>'' contents)))
     = nat (max 0 (min limit (int (length (split ''\<newline>'' contents)) - offset)))"
    using a by (intro length_window) simp
  show "let lines = split ''\<newline>'' contents;
             n = nat (max 0 (min limit (int (length lines) - offset)));
             selected = take n (drop (nat offset) lines)
         in read_file_member P (JObj ps) w =
              (Inr (JObj [(''content'', JStr (join ''\<newline>''
                        (map (\<lambda>(i, line). padStart 6 (int_toString (int i + offset + 1)) @ ''  '' @ line)
                             (zip [0..<n] selected)))),
                     (''total_lines'', JNum (int (length lines)) 0),
                     (''displayed_lines'', JNum (int n) 0)]), w)
            \<and> length selected = n
            \<and> length lines
                = line_count contents + (if contents = [] \<or> last contents = CHR 0x0A then 1 else 0)
            \<and> join ''\<newline>'' lines = contents"
    unfolding Let_def
  proof (intro conjI)
    from read_file_member_defaults [OF assms, of P w]
    show "read_file_member P (JObj ps) w =
      (Inr (JObj [(''content'', JStr (join ''\<newline>''
                (map (\<lambda>(i, line). padStart 6 (int_toString (int i + offset + 1)) @ ''  '' @ line)
                   (zip [0..<nat (max 0 (min limit (int (length (split ''\<newline>'' contents)) - offset)))]
                      (take (nat (max 0 (min limit (int (length (split ''\<newline>'' contents)) - offset))))
                         (drop (nat offset) (split ''\<newline>'' contents))))))),
             (''total_lines'', JNum (int (length (split ''\<newline>'' contents))) 0),
             (''displayed_lines'', JNum (int (nat (max 0 (min limit (int (length (split ''\<newline>'' contents)) - offset))))) 0)]), w)"
      unfolding r by simp
    show "length (take (nat (max 0 (min limit (int (length (split ''\<newline>'' contents)) - offset)))) (drop (nat offset) (split ''\<newline>'' contents)))
      = nat (max 0 (min limit (int (length (split ''\<newline>'' contents)) - offset)))"
      by (rule l)
    show "length (split ''\<newline>'' contents)
          = line_count contents + (if contents = [] \<or> last contents = CHR 0x0A then 1 else 0)"
      by (rule line_count_split)
    show "join ''\<newline>'' (split ''\<newline>'' contents) = contents"
      by (rule join_split) simp
  qed
qed

theorem read_file_window_witness:
  "own [(''file_path'', JStr ''/notes.txt'')] ''file_path'' = JStr ''/notes.txt''
   \<and> own [(''file_path'', JStr ''/notes.txt'')] ''offset'' = JUndefined
   \<and> own [(''file_path'', JStr ''/notes.txt'')] ''limit'' = JUndefined
   \<and> files sample_world (resolve sample_platform ''/notes.txt'') = Some (File ''one\<newline>two\<newline>three'')
   \<and> (0::int) \<le> 0 \<and> (0::int) < 2000
   \<and> read_file_member sample_platform (JObj [(''file_path'', JStr ''/notes.txt'')]) sample_world =
       (Inr (JObj [(''content'', JStr ''     1  one\<newline>     2  two\<newline>     3  three''),
                   (''total_lines'', JNum 3 0), (''displayed_lines'', JNum 3 0)]), sample_world)
   \<and> line_count ''one\<newline>two\<newline>three'' = 3
   \<and> own [(''file_path'', JStr ''/notes.txt''), (''offset'', JNum 1 0), (''limit'', JNum 5 0)] ''offset''
       = JNum 1 0
   \<and> own [(''file_path'', JStr ''/notes.txt''), (''offset'', JNum 1 0), (''limit'', JNum 5 0)] ''limit''
       = JNum 5 0
   \<and> (0::int) \<le> 1 \<and> (0::int) < 5
   \<and> read_file_member sample_platform
         (JObj [(''file_path'', JStr ''/notes.txt''), (''offset'', JNum 1 0), (''limit'', JNum 5 0)])
         sample_world =
       (Inr (JObj [(''content'', JStr ''     2  two\<newline>     3  three''),
                   (''total_lines'', JNum 3 0), (''displayed_lines'', JNum 2 0)]), sample_world)
   \<and> files sample_world (resolve sample_platform ''/missing.txt'') = None
   \<and> read_file_member sample_platform (JObj [(''file_path'', JStr ''/missing.txt'')]) sample_world =
       (Inr (JObj [(''error'', JStr ''File not found: /missing.txt'')]), sample_world)"
proof -
  have f: "files sample_world (resolve sample_platform ''/notes.txt'') = Some (File ''one\<newline>two\<newline>three'')"
    by (simp add: sample_world_def sample_platform_def)
  have m: "files sample_world (resolve sample_platform ''/missing.txt'') = None"
    by (simp add: sample_world_def sample_platform_def)
  have l: "split ''\<newline>'' ''one\<newline>two\<newline>three'' = [''one'', ''two'', ''three'']"
    by simp
  have c: "line_count ''one\<newline>two\<newline>three'' = 3"
    by (simp add: line_count_def)
  from read_file_window
    [where ps = "[(''file_path'', JStr ''/missing.txt'')]" and file_path = "''/missing.txt''"
       and offset = 0 and limit = 2000 and w = sample_world and P = sample_platform] m
  have e: "read_file_member sample_platform (JObj [(''file_path'', JStr ''/missing.txt'')]) sample_world =
       (Inr (JObj [(''error'', JStr ''File not found: /missing.txt'')]), sample_world)"
    by (simp add: own_def)
  from read_file_window
    [where ps = "[(''file_path'', JStr ''/notes.txt'')]" and file_path = "''/notes.txt''"
       and offset = 0 and limit = 2000 and w = sample_world and P = sample_platform] f
  have "let lines = split ''\<newline>'' ''one\<newline>two\<newline>three'';
             n = nat (max 0 (min 2000 (int (length lines) - 0)));
             selected = take n (drop (nat 0) lines)
         in read_file_member sample_platform (JObj [(''file_path'', JStr ''/notes.txt'')]) sample_world =
              (Inr (JObj [(''content'', JStr (join ''\<newline>''
                        (map (\<lambda>(i, line). padStart 6 (int_toString (int i + 0 + 1)) @ ''  '' @ line)
                             (zip [0..<n] selected)))),
                     (''total_lines'', JNum (int (length lines)) 0),
                     (''displayed_lines'', JNum (int n) 0)]), sample_world)"
    by (simp add: own_def c)
  then have a: "read_file_member sample_platform (JObj [(''file_path'', JStr ''/notes.txt'')]) sample_world =
       (Inr (JObj [(''content'', JStr ''     1  one\<newline>     2  two\<newline>     3  three''),
                   (''total_lines'', JNum 3 0), (''displayed_lines'', JNum 3 0)]), sample_world)"
    unfolding l
    by (simp add: Let_def upt_rec padStart_def sample_numerals)
  from read_file_window
    [where ps = "[(''file_path'', JStr ''/notes.txt''), (''offset'', JNum 1 0), (''limit'', JNum 5 0)]"
       and file_path = "''/notes.txt''"
       and offset = 1 and limit = 5 and w = sample_world and P = sample_platform] f
  have "let lines = split ''\<newline>'' ''one\<newline>two\<newline>three'';
             n = nat (max 0 (min 5 (int (length lines) - 1)));
             selected = take n (drop (nat 1) lines)
         in read_file_member sample_platform
              (JObj [(''file_path'', JStr ''/notes.txt''), (''offset'', JNum 1 0), (''limit'', JNum 5 0)])
              sample_world =
              (Inr (JObj [(''content'', JStr (join ''\<newline>''
                        (map (\<lambda>(i, line). padStart 6 (int_toString (int i + 1 + 1)) @ ''  '' @ line)
                             (zip [0..<n] selected)))),
                     (''total_lines'', JNum (int (length lines)) 0),
                     (''displayed_lines'', JNum (int n) 0)]), sample_world)"
    by (simp add: own_def c)
  then have b: "read_file_member sample_platform
         (JObj [(''file_path'', JStr ''/notes.txt''), (''offset'', JNum 1 0), (''limit'', JNum 5 0)])
         sample_world =
       (Inr (JObj [(''content'', JStr ''     2  two\<newline>     3  three''),
                   (''total_lines'', JNum 3 0), (''displayed_lines'', JNum 2 0)]), sample_world)"
    unfolding l
    by (simp add: Let_def upt_rec padStart_def sample_numerals)
  from f m e a b c show ?thesis by (simp add: own_def)
qed

text \<open>
  C7 as stated fails on a file of two lines that ends in a line feed, read from offset 5
  with limit 1: the tool reports three lines in total where the file has two, and it
  returns no line, where \<open>min l (total - o)\<close> is negative for either total.
\<close>

theorem read_file_past_end:
  "files sample_world (resolve sample_platform ''/log.txt'') = Some (File ''one\<newline>two\<newline>'')
   \<and> read_file_member sample_platform
       (JObj [(''file_path'', JStr ''/log.txt''), (''offset'', JNum 5 0), (''limit'', JNum 1 0)])
       sample_world =
     (Inr (JObj [(''content'', JStr []), (''total_lines'', JNum 3 0),
                 (''displayed_lines'', JNum 0 0)]), sample_world)
   \<and> line_count ''one\<newline>two\<newline>'' = 2
   \<and> min (1::int) (int (line_count ''one\<newline>two\<newline>'') - 5) \<noteq> 0
   \<and> min (1::int) (3 - 5) \<noteq> 0"
  by (simp add: read_file_member_def integer_or_def as_integer_def own_def read_file_def
        sample_world_def sample_platform_def slice_def line_count_def Let_def)



text \<open>
  C2. The claim says that \<open>processToolCall\<close> never raises and that arguments which
  fail to parse give an error result. \<open>JSON.parse\<close> is called before the \<open>try\<close>: on the
  tool call \<open>read_file\<close> with the argument text \<open>{\<close> the promise is rejected with the
  SyntaxError, and no result is returned.
\<close>

theorem processToolCall_rejects_on_malformed_arguments:
  "processToolCall sample_platform (JStr ''read_file'') (JStr ''{'') sample_world
   = (Inl (SyntaxError ''Unexpected token in JSON''), sample_world)"
proof -
  have "read_json ''{'' = Inl ''Unexpected token in JSON''" by code_simp
  then show ?thesis by (simp add: processToolCall_def sample_platform_def)
qed

text \<open>
  C9, as the code has it. \<open>startCLI\<close> reads the body of the probe's response and never
  looks at its status. When the body is JSON with an \<open>api_initialized\<close> that is false,
  absent or otherwise falsy, it writes two warning lines, the second pointing at
  \<open>GEMINI_API_KEY\<close>, and starts the interactive session all the same. It writes that the
  proxy cannot be reached and the process exits with status 1 when the probe cannot be
  read: the request is rejected, the body is not JSON, or the body is \<open>null\<close>, so that
  reading its property throws. The health check ends the process in no other case.
\<close>

theorem startCLI_health:
  "(json P healthCheck = Inr healthData \<and> getProp healthData ''api_initialized'' = Inr v \<and> \<not> truthy v
      \<longrightarrow> startCLI P PROXY_URL None healthCheck =
            ([''Warning: Gemini API not properly initialized at the proxy server.'',
              ''Please check that GEMINI_API_KEY is set in the .env file.''],
             Interactive []))
   \<and> (json P healthCheck = Inl e
        \<or> json P healthCheck = Inr healthData \<and> getProp healthData ''api_initialized'' = Inl e
      \<longrightarrow> startCLI P PROXY_URL argv_file healthCheck =
            ([''Error: Cannot connect to proxy server at '' @ PROXY_URL,
              ''Please start the proxy server first with: npm run start-proxy''],
             Exit 1))
   \<and> (snd (startCLI P PROXY_URL argv_file healthCheck) = Exit status
      \<longrightarrow> status = 1
          \<and> ((\<exists>x. json P healthCheck = Inl x)
               \<or> (\<exists>d x. json P healthCheck = Inr d \<and> getProp d ''api_initialized'' = Inl x
                         \<and> (d = JNull \<or> d = JUndefined))))
   \<and> startCLI P PROXY_URL argv_file (Response ok body intact)
       = startCLI P PROXY_URL argv_file (Response (\<not> ok) body intact)"
proof (intro conjI impI)
  assume "json P healthCheck = Inr healthData \<and> getProp healthData ''api_initialized'' = Inr v \<and> \<not> truthy v"
  then show "startCLI P PROXY_URL None healthCheck =
            ([''Warning: Gemini API not properly initialized at the proxy server.'',
              ''Please check that GEMINI_API_KEY is set in the .env file.''],
             Interactive [])"
    by (simp add: startCLI_def health_check_def)
next
  assume "json P healthCheck = Inl e
        \<or> json P healthCheck = Inr healthData \<and> getProp healthData ''api_initialized'' = Inl e"
  then show "startCLI P PROXY_URL argv_file healthCheck =
            ([''Error: Cannot connect to proxy server at '' @ PROXY_URL,
              ''Please start the proxy server first with: npm run start-proxy''],
             Exit 1)"
    by (auto simp: startCLI_def health_check_def)
next
  assume x: "snd (startCLI P PROXY_URL argv_file healthCheck) = Exit status"
  then show "status = 1"
    by (auto simp: startCLI_def health_check_def split: sum.splits option.splits if_splits)
  show "(\<exists>x. json P healthCheck = Inl x)
         \<or> (\<exists>d x. json P healthCheck = Inr d \<and> getProp d ''api_initialized'' = Inl x
                   \<and> (d = JNull \<or> d = JUndefined))"
  proof (cases "json P healthCheck")
    case (Inl x)
    then show ?thesis by blast
  next
    case (Inr d)
    show ?thesis
    proof (cases "getProp d ''api_initialized''")
      case (Inl x)
      then have "d = JNull \<or> d = JUndefined" by (cases d) simp_all
      with Inr Inl show ?thesis by blast
    next
      case (Inr u)
      with \<open>json P healthCheck = Inr d\<close> x show ?thesis
        by (auto simp: startCLI_def health_check_def split: option.splits if_splits)
    qed
  qed
next
  show "startCLI P PROXY_URL argv_file (Response ok body intact)
       = startCLI P PROXY_URL argv_file (Response (\<not> ok) body intact)"
    by (cases body) (simp_all add: startCLI_def health_check_def)
qed

theorem startCLI_health_witness:
  \<open>json sample_platform (Response False (Some [''{"api_initialized": false}'']) True)
     = Inr (JObj [(''api_initialized'', JBool False)])
   \<and> getProp (JObj [(''api_initialized'', JBool False)]) ''api_initialized'' = Inr (JBool False)
   \<and> \<not> truthy (JBool False)
   \<and> startCLI sample_platform ''http://localhost:8000'' None
        (Response False (Some [''{"api_initialized": false}'']) True)
      = ([''Warning: Gemini API not properly initialized at the proxy server.'',
          ''Please check that GEMINI_API_KEY is set in the .env file.''],
         Interactive [])
   \<and> json sample_platform (FetchFails ''connect ECONNREFUSED'') = Inl (Thrown ''connect ECONNREFUSED'')
   \<and> startCLI sample_platform ''http://localhost:8000'' None (FetchFails ''connect ECONNREFUSED'')
      = ([''Error: Cannot connect to proxy server at http://localhost:8000'',
          ''Please start the proxy server first with: npm run start-proxy''],
         Exit 1)
   \<and> snd (startCLI sample_platform ''http://localhost:8000'' None (FetchFails ''connect ECONNREFUSED''))
      = Exit 1
   \<and> json sample_platform (Response True (Some [''null'']) True) = Inr JNull
   \<and> getProp JNull ''api_initialized''
      = Inl (Thrown (''Cannot read properties of null (reading '' @ [CHR 0x27] @ ''api_initialized''
                     @ [CHR 0x27] @ '')''))
   \<and> startCLI sample_platform ''http://localhost:8000'' None (Response True (Some [''null'']) True)
      = ([''Error: Cannot connect to proxy server at http://localhost:8000'',
          ''Please start the proxy server first with: npm run start-proxy''],
         Exit 1)\<close>
proof -
  have j: \<open>json sample_platform (Response False (Some [''{"api_initialized": false}'']) True)
     = Inr (JObj [(''api_initialized'', JBool False)])\<close>
    using health_false by (simp add: sample_platform_def)
  have g: "getProp (JObj [(''api_initialized'', JBool False)]) ''api_initialized'' = Inr (JBool False)"
    by (simp add: own_def)
  have k: "json sample_platform (FetchFails ''connect ECONNREFUSED'') = Inl (Thrown ''connect ECONNREFUSED'')"
    by simp
  have "read_json ''null'' = Inr JNull" by code_simp
  then have n: "json sample_platform (Response True (Some [''null'']) True) = Inr JNull"
    by (simp add: sample_platform_def)
  from startCLI_health
    [where P = sample_platform
       and healthCheck = \<open>Response False (Some [''{"api_initialized": false}'']) True\<close>
       and healthData = "JObj [(''api_initialized'', JBool False)]" and v = "JBool False"
       and PROXY_URL = "''http://localhost:8000''"] j g
  have a: \<open>startCLI sample_platform ''http://localhost:8000'' None
        (Response False (Some [''{"api_initialized": false}'']) True)
      = ([''Warning: Gemini API not properly initialized at the proxy server.'',
          ''Please check that GEMINI_API_KEY is set in the .env file.''],
         Interactive [])\<close>
    by simp
  from startCLI_health
    [where P = sample_platform and healthCheck = "FetchFails ''connect ECONNREFUSED''"
       and PROXY_URL = "''http://localhost:8000''" and e = "Thrown ''connect ECONNREFUSED''"
       and argv_file = None] k
  have b: "startCLI sample_platform ''http://localhost:8000'' None (FetchFails ''connect ECONNREFUSED'')
      = ([''Error: Cannot connect to proxy server at http://localhost:8000'',
          ''Please start the proxy server first with: npm run start-proxy''],
         Exit 1)"
    by simp
  from startCLI_health
    [where P = sample_platform and healthCheck = \<open>Response True (Some [''null'']) True\<close>
       and healthData = JNull
       and PROXY_URL = "''http://localhost:8000''"
       and e = "Thrown (''Cannot read properties of null (reading '' @ [CHR 0x27]
                        @ ''api_initialized'' @ [CHR 0x27] @ '')'')"
       and argv_file = None] n
  have c: \<open>startCLI sample_platform ''http://localhost:8000'' None (Response True (Some [''null'']) True)
      = ([''Error: Cannot connect to proxy server at http://localhost:8000'',
          ''Please start the proxy server first with: npm run start-proxy''],
         Exit 1)\<close>
    by simp
  from j g k n a b c show ?thesis by simp
qed

text \<open>
  C9 as stated fails twice. With \<open>api_initialized: false\<close> the interactive session
  starts. And a probe that fails with an error status and a JSON body does not end the
  process: the session starts after the warning.
\<close>

theorem startCLI_starts_uninitialized:
  \<open>startCLI sample_platform ''http://localhost:8000'' None
     (Response True (Some [''{"api_initialized": false}'']) True)
   = ([''Warning: Gemini API not properly initialized at the proxy server.'',
       ''Please check that GEMINI_API_KEY is set in the .env file.''],
      Interactive [])
   \<and> transport_error (Response False (Some [''{"detail": "Service Unavailable"}'']) True)
   \<and> startCLI sample_platform ''http://localhost:8000'' None
     (Response False (Some [''{"detail": "Service Unavailable"}'']) True)
   = ([''Warning: Gemini API not properly initialized at the proxy server.'',
       ''Please check that GEMINI_API_KEY is set in the .env file.''],
      Interactive [])\<close>
  using health_false health_unavailable
  by (simp add: startCLI_def health_check_def sample_platform_def own_def)

text \<open>
  C4. The claim says that whenever a non-streaming response contains a tool-call
  request, the assistant message and the tool-result message are appended before the
  next remote call. On a response whose tool call carries an argument text that is not
  JSON, \<open>processToolCall\<close> raises (the defect of C2), the call ends with \<open>null\<close>, nothing
  is appended to the history and no further request is sent.
\<close>

theorem malformed_tool_call_appends_nothing:
  "json sample_platform sample_malformed_call =
     Inr (JObj [(''choices'', JArr [JObj [(''message'',
           JObj [(''content'', JNull),
                 (''function_call'',
                  JObj [(''name'', JStr ''read_file''), (''arguments'', JStr ''{'')])])]])])
   \<and> function_call_of (JObj [(''choices'', JArr [JObj [(''message'',
           JObj [(''content'', JNull),
                 (''function_call'',
                  JObj [(''name'', JStr ''read_file''), (''arguments'', JStr ''{'')])])]])])
       = Inr (JObj [(''name'', JStr ''read_file''), (''arguments'', JStr ''{'')])
   \<and> truthy (JObj [(''name'', JStr ''read_file''), (''arguments'', JStr ''{'')])
   \<and> callGeminiAPI sample_platform False [sample_malformed_call, sample_answer]
         [user_message ''How long is it?''] sample_world =
       \<lparr>returned = Some JNull, messages = [user_message ''How long is it?''],
        world_now = sample_world, requests = [[user_message ''How long is it?'']],
        written = []\<rparr>"
proof -
  have f: "function_call_of (JObj [(''choices'', JArr [JObj [(''message'',
           JObj [(''content'', JNull),
                 (''function_call'',
                  JObj [(''name'', JStr ''read_file''), (''arguments'', JStr ''{'')])])]])])
       = Inr (JObj [(''name'', JStr ''read_file''), (''arguments'', JStr ''{'')])"
    by (simp add: function_call_of_def own_def)
  have c: "message_content_of (JObj [(''choices'', JArr [JObj [(''message'',
           JObj [(''content'', JNull),
                 (''function_call'',
                  JObj [(''name'', JStr ''read_file''), (''arguments'', JStr ''{'')])])]])])
       = Inr JNull"
    by (simp add: message_content_of_def own_def)
  have p: "processToolCall sample_platform (JStr ''read_file'') (JStr ''{'') sample_world
           = (Inl (SyntaxError ''Unexpected token in JSON''), sample_world)"
    using sample_parse_failure by (rule processToolCall_parse_failure)
  have "callGeminiAPI sample_platform False [sample_malformed_call, sample_answer]
         [user_message ''How long is it?''] sample_world =
       finished JNull [user_message ''How long is it?''] sample_world"
    using sample_json(2) unfolding sample_malformed_call_def
    by (simp add: f c p own_def del: json.simps)
  with sample_json(2) f show ?thesis by (simp add: finished_def)
qed

text \<open>
  Where \<open>processToolCall\<close> returns a result, the history that the next request carries
  is the history of this request followed by exactly two messages, in this order: the
  assistant message with the tool call, then the tool-result message with the name of
  the tool and the serialized result. In every call, whatever the replies, each request
  after the first carries the history of the request before it followed by exactly two
  such messages. And in every history that a session reaches, each tool-result message
  has an assistant message earlier in the history whose tool call names the same tool.
\<close>

lemma tool_call_appends_in_order:
  assumes "json P (Response True body intact) = Inr data"
    and "function_call_of data = Inr functionCall" and "truthy functionCall"
    and "getProp functionCall ''name'' = Inr n"
    and "getProp functionCall ''arguments'' = Inr args"
    and "message_content_of data = Inr c"
    and "processToolCall P n args w = (Inr toolResult, w')"
  shows "\<exists>later extra.
           requests (callGeminiAPI P False (Response True body intact # rest) msgs w)
             = msgs # (msgs @ [assistant_call c functionCall,
                               function_result n (JSON_stringify P toolResult)]) # later
         \<and> messages (callGeminiAPI P False (Response True body intact # rest) msgs w)
             = msgs @ [assistant_call c functionCall,
                       function_result n (JSON_stringify P toolResult)] @ extra"
proof -
  define a where "a = assistant_call c functionCall"
  define f where "f = function_result n (JSON_stringify P toolResult)"
  define nxt where "nxt = callGeminiAPI P False rest (msgs @ [a, f]) w'"
  from assms(7) obtain key where "ToString n = Inr key"
    using processToolCall_converts by blast
  with assms have step: "callGeminiAPI P False (Response True body intact # rest) msgs w
                     = nxt\<lparr>requests := msgs # requests nxt\<rparr>"
    by (simp add: Let_def a_def f_def nxt_def)
  obtain later where l: "requests nxt = (msgs @ [a, f]) # later"
    unfolding nxt_def using requests_first by blast
  obtain extra where e: "messages nxt = (msgs @ [a, f]) @ extra"
    unfolding nxt_def using messages_extend by blast
  from step l e show ?thesis
    unfolding a_def f_def by simp
qed

lemma session_tool_results_preceded: "tool_results_preceded (session P stream turns [] w)"
  using preceded_Nil by (rule session_preserves)

text \<open>
  C10. A turn that is aborted by a transport error after tools were dispatched leaves
  its traces. The replies \<open>calls\<close> are all answered by a dispatch, so that the call sends
  a request after each of them, and the reply to the last of these requests is a
  transport error. Then the call ends with \<open>null\<close>, the handler of the line appends no
  final assistant message, and the history is the one before the turn, followed by the
  user message and, for each of the replies \<open>calls\<close> in order, the assistant message with
  the tool call and the tool-result message that names the same tool.
\<close>

theorem abort_keeps_tool_messages:
  assumes "trim line \<noteq> []" and "toLowerCase (trim line) \<noteq> ''exit''"
    and "transport_error failing"
    and "length (requests (callGeminiAPI P stream (calls @ failing # rest)
                   (conversationHistory @ [user_message (trim line)]) w)) = Suc (length calls)"
  shows "\<exists>r pairs.
           on_line P stream line (calls @ failing # rest) conversationHistory w = Inr r
         \<and> returned r = Some JNull
         \<and> length pairs = length calls
         \<and> list_all (\<lambda>(a, f). calls_tool a (name f) \<and> role f = ''function'') pairs
         \<and> messages r = conversationHistory @ user_message (trim line)
                           # concat (map (\<lambda>(a, f). [a, f]) pairs)"
proof -
  define run where "run = callGeminiAPI P stream (calls @ failing # rest)
                   (conversationHistory @ [user_message (trim line)]) w"
  from aborted_run [OF assms(3,4)] obtain pairs where
    p: "length pairs = length calls"
       "list_all (\<lambda>(a, f). calls_tool a (name f) \<and> role f = ''function'') pairs"
       "returned run = Some JNull"
       "messages run = (conversationHistory @ [user_message (trim line)])
                         @ concat (map (\<lambda>(a, f). [a, f]) pairs)"
    unfolding run_def by blast
  from assms(1,2) p(3) have "on_line P stream line (calls @ failing # rest) conversationHistory w = Inr run"
    by (simp add: on_line_def Let_def run_def)
  with p show ?thesis
    by (intro exI [of _ run] exI [of _ pairs]) simp
qed

theorem abort_keeps_tool_messages_witness:
  \<open>trim ''How long is it?'' \<noteq> [] \<and> toLowerCase (trim ''How long is it?'') \<noteq> ''exit''
   \<and> transport_error (FetchFails ''socket hang up'')
   \<and> length (requests (callGeminiAPI sample_platform False
         ([sample_tool_call, sample_tool_call] @ FetchFails ''socket hang up'' # [])
         ([] @ [user_message (trim ''How long is it?'')]) sample_world))
       = Suc (length [sample_tool_call, sample_tool_call])
   \<and> (\<exists>r pairs.
         on_line sample_platform False ''How long is it?''
           ([sample_tool_call, sample_tool_call] @ FetchFails ''socket hang up'' # []) [] sample_world
           = Inr r
       \<and> returned r = Some JNull
       \<and> length pairs = length [sample_tool_call, sample_tool_call]
       \<and> list_all (\<lambda>(a, f). calls_tool a (name f) \<and> role f = ''function'') pairs
       \<and> messages r = [] @ user_message (trim ''How long is it?'')
                         # concat (map (\<lambda>(a, f). [a, f]) pairs))
   \<and> on_line sample_platform False ''How long is it?''
         [sample_tool_call, sample_tool_call, FetchFails ''socket hang up''] [] sample_world =
       Inr \<lparr>returned = Some JNull,
            messages =
              [user_message ''How long is it?'',
               assistant_call JNull
                (JObj [(''name'', JStr ''read_file''),
                  (''arguments'', JObj [(''file_path'', JStr ''/notes.txt''), (''limit'', JNum 1 0)])]),
               function_result (JStr ''read_file'')
                (JStr ''{"content":"     1  one","total_lines":3,"displayed_lines":1}''),
               assistant_call JNull
                (JObj [(''name'', JStr ''read_file''),
                  (''arguments'', JObj [(''file_path'', JStr ''/notes.txt''), (''limit'', JNum 1 0)])]),
               function_result (JStr ''read_file'')
                (JStr ''{"content":"     1  one","total_lines":3,"displayed_lines":1}'')],
            world_now = sample_world,
            requests =
              [[user_message ''How long is it?''],
               [user_message ''How long is it?'',
                assistant_call JNull
                 (JObj [(''name'', JStr ''read_file''),
                   (''arguments'', JObj [(''file_path'', JStr ''/notes.txt''), (''limit'', JNum 1 0)])]),
                function_result (JStr ''read_file'')
                 (JStr ''{"content":"     1  one","total_lines":3,"displayed_lines":1}'')],
               [user_message ''How long is it?'',
                assistant_call JNull
                 (JObj [(''name'', JStr ''read_file''),
                   (''arguments'', JObj [(''file_path'', JStr ''/notes.txt''), (''limit'', JNum 1 0)])]),
                function_result (JStr ''read_file'')
                 (JStr ''{"content":"     1  one","total_lines":3,"displayed_lines":1}''),
                assistant_call JNull
                 (JObj [(''name'', JStr ''read_file''),
                   (''arguments'', JObj [(''file_path'', JStr ''/notes.txt''), (''limit'', JNum 1 0)])]),
                function_result (JStr ''read_file'')
                 (JStr ''{"content":"     1  one","total_lines":3,"displayed_lines":1}'')]],
            written = []\<rparr>\<close>
proof -
  have t: "trim ''How long is it?'' \<noteq> []" "toLowerCase (trim ''How long is it?'') \<noteq> ''exit''"
    by (simp_all add: sample_line)
  have e: "transport_error (FetchFails ''socket hang up'')" by simp
  have n: "length (requests (callGeminiAPI sample_platform False
         ([sample_tool_call, sample_tool_call] @ FetchFails ''socket hang up'' # [])
         ([] @ [user_message (trim ''How long is it?'')]) sample_world))
       = Suc (length [sample_tool_call, sample_tool_call])"
    by (simp add: sample_line sample_aborted_run)
  have o: "on_line sample_platform False ''How long is it?''
         [sample_tool_call, sample_tool_call, FetchFails ''socket hang up''] [] sample_world =
       Inr (callGeminiAPI sample_platform False
              [sample_tool_call, sample_tool_call, FetchFails ''socket hang up'']
              [user_message ''How long is it?''] sample_world)"
    by (simp add: on_line_def Let_def sample_line sample_aborted_run)
  from abort_keeps_tool_messages [OF t e n] t e n o show ?thesis
    by (simp only: sample_aborted_run append_Cons append_Nil simp_thms)
qed

end
